theory Spec2Isabelle
  imports Main "HOL-Library.Sublist"
begin

section \<open>Support bot (src/main.py): data model\<close>

text \<open>
  The bot relays messages between correspondents (private chats) and a staff forum group.
  It talks to two external services: the Telegram Bot API (\<open>context.bot\<close>,
  \<open>update.message.reply_text\<close>) and MongoDB (\<open>db.users\<close>, \<open>db.messages\<close>).
  Both are modelled as an environment that answers every external call either with a return
  value or with a raised exception; the content of the two MongoDB collections is part of the
  state. Timestamps (\<open>created_at\<close>, \<open>updated_at\<close>, \<open>timestamp\<close>) and the emoji and
  HTML markup of the message texts are left out: no function of the source reads them.
\<close>

subsection \<open>Exceptions and strings\<close>

text \<open>The source only ever inspects \<open>str(e)\<close> of an exception.\<close>

datatype exn = Exception string

fun str :: "exn \<Rightarrow> string" where
  "str (Exception m) = m"

text \<open>\<open>s.lower()\<close> on the ASCII letters; every other character is kept.\<close>

definition lower_char :: "char \<Rightarrow> char" where
  "lower_char c =
     (case map_of (zip ''ABCDEFGHIJKLMNOPQRSTUVWXYZ'' ''abcdefghijklmnopqrstuvwxyz'') c of
        Some l \<Rightarrow> l
      | None \<Rightarrow> c)"

definition lower :: "string \<Rightarrow> string" where
  "lower s = map lower_char s"

text \<open>\<open>needle in hay\<close> on Python strings: \<open>needle\<close> occurs as a contiguous substring.\<close>

fun contains :: "string \<Rightarrow> string \<Rightarrow> bool" where
  "contains needle [] = (needle = [])"
| "contains needle (c # cs) = (prefix needle (c # cs) \<or> contains needle cs)"

text \<open>\<open>x or default\<close> on a string that may be absent: \<open>None\<close> and \<open>""\<close> are falsy.\<close>

fun or_default :: "string option \<Rightarrow> string \<Rightarrow> string" where
  "or_default None d = d"
| "or_default (Some s) d = (if s = [] then d else s)"

subsection \<open>Documents, updates, calls\<close>

text \<open>
  A document of \<open>db.users\<close> as \<open>save_user_topic\<close> writes it. \<open>user_id\<close> is
  \<open>str(update.effective_user.id)\<close> in the source and is converted back with
  \<open>int(user_id)\<close>; the model keeps the integer. \<open>topic_id\<close> is the
  \<open>message_thread_id\<close> of the forum topic.
\<close>

record user_doc =
  user_id :: int
  topic_id :: int
  user_name :: string
  username :: string

text \<open>A document of \<open>db.messages\<close> as \<open>log_message\<close> writes it.\<close>

record message_doc =
  m_user_id :: int
  message_type :: string
  direction :: string
  content :: "string option"

datatype chat_type = Private | Group | Supergroup | Channel

text \<open>
  The fields of a Telegram \<open>Update\<close> that the handlers read: \<open>effective_chat\<close>,
  \<open>effective_user\<close> and \<open>message\<close> (\<open>msg_text\<close> is \<open>message.text\<close>). A media
  field holds the \<open>file_id\<close>;
  \<open>photo\<close> is the list of sizes, \<open>document\<close> the pair of \<open>file_id\<close> and
  \<open>file_name\<close>.
\<close>

record update =
  chat_type :: chat_type
  chat_id :: int
  from_id :: int
  first_name :: "string option"
  from_username :: "string option"
  message_id :: int
  message_thread_id :: "int option"
  msg_text :: "string option"
  caption :: "string option"
  photo :: "string list"
  video :: "string option"
  document :: "(string \<times> string option) option"
  voice :: "string option"
  audio :: "string option"
  sticker :: "string option"
  video_note :: "string option"

text \<open>
  The diagnostic notice that \<open>handle_reply\<close> builds in \<open>error_details\<close>, one constructor
  per template, carrying the values the template embeds.
\<close>

datatype notice =
    RecipientBlocked int string string
  | RecipientAccountMissing int
  | CannotInitiateConversation int
  | Forbidden int
  | Unknown int string

text \<open>
  Every external call of the source. The Bot API calls into the staff group all have
  \<open>chat_id=SUPPORT_GROUP_ID\<close>, which is not repeated here.
  \<^item> \<open>ReplyText chat text\<close>: \<open>update.message.reply_text(text)\<close> in a private chat;
  \<^item> \<open>ForwardMessage from_chat_id message_id message_thread_id\<close>;
  \<^item> \<open>CreateForumTopic name\<close>;
  \<^item> \<open>SendWelcome message_thread_id user_name user_id username\<close>: the
    \<open>send_message\<close> of \<open>welcome_text\<close> into the new topic;
  \<^item> \<open>SendMessage\<close> ... \<open>SendVideoNote\<close>: the sends of \<open>handle_reply\<close> to
    \<open>chat_id=int(user_id)\<close>, with the payload and the caption where the source passes one;
  \<^item> \<open>ReplyNotice message_thread_id notice\<close>: \<open>reply_text(error_details,
    message_thread_id=topic_id)\<close> of \<open>handle_reply\<close>;
  \<^item> the MongoDB calls \<open>users.find_one({"user_id": ..})\<close>,
    \<open>users.find_one({"topic_id": ..})\<close>, \<open>users.update_one(.., upsert=True)\<close>,
    \<open>users.delete_one\<close>, \<open>messages.insert_one\<close>.
\<close>

datatype call =
    ReplyText int string
  | ForwardMessage int int int
  | CreateForumTopic string
  | SendWelcome int string int string
  | SendMessage int string
  | SendPhoto int string "string option"
  | SendVideo int string "string option"
  | SendDocument int string "string option"
  | SendVoice int string "string option"
  | SendAudio int string "string option"
  | SendSticker int string
  | SendVideoNote int string
  | ReplyNotice int notice
  | UsersFindOneByUser int
  | UsersFindOneByTopic int
  | UsersUpdateOne user_doc
  | UsersDeleteOne int
  | MessagesInsertOne message_doc

fun is_store :: "call \<Rightarrow> bool" where
  "is_store (UsersFindOneByUser _) = True"
| "is_store (UsersFindOneByTopic _) = True"
| "is_store (UsersUpdateOne _) = True"
| "is_store (UsersDeleteOne _) = True"
| "is_store (MessagesInsertOne _) = True"
| "is_store _ = False"

fun is_forward :: "call \<Rightarrow> bool" where
  "is_forward (ForwardMessage _ _ _) = True"
| "is_forward _ = False"

fun is_create :: "call \<Rightarrow> bool" where
  "is_create (CreateForumTopic _) = True"
| "is_create _ = False"

fun is_send :: "call \<Rightarrow> bool" where
  "is_send (SendMessage _ _) = True"
| "is_send (SendPhoto _ _ _) = True"
| "is_send (SendVideo _ _ _) = True"
| "is_send (SendDocument _ _ _) = True"
| "is_send (SendVoice _ _ _) = True"
| "is_send (SendAudio _ _ _) = True"
| "is_send (SendSticker _ _) = True"
| "is_send (SendVideoNote _ _) = True"
| "is_send _ = False"

subsection \<open>The state and the environment\<close>

datatype level = INFO | WARNING | ERROR

text \<open>
  \<open>users\<close> and \<open>messages\<close> are the two collections in insertion order, \<open>trace\<close> is
  every external call made so far with its answer, \<open>logged\<close> is what went to \<open>logger\<close>
  (level and the fixed part of the message).
\<close>

record world =
  users :: "user_doc list"
  messages :: "message_doc list"
  trace :: "(call \<times> (exn + int)) list"
  logged :: "(level \<times> string) list"

text \<open>
  The environment answers the \<open>n\<close>-th external call: \<open>Inl e\<close> when the call raises
  \<open>e\<close>, \<open>Inr v\<close> when it returns. \<open>v\<close> is the \<open>message_thread_id\<close> of the new
  topic for \<open>create_forum_topic\<close> and is ignored for every other call: what a MongoDB call
  returns is computed from \<open>users\<close> and \<open>messages\<close>.
\<close>

type_synonym env = "nat \<Rightarrow> call \<Rightarrow> exn + int"

definition perform :: "env \<Rightarrow> call \<Rightarrow> world \<Rightarrow> (exn + int) \<times> world" where
  "perform env c w =
     (env (length (trace w)) c, w\<lparr>trace := trace w @ [(c, env (length (trace w)) c)]\<rparr>)"

definition add_log :: "level \<Rightarrow> string \<Rightarrow> world \<Rightarrow> world" where
  "add_log l m w = w\<lparr>logged := logged w @ [(l, m)]\<rparr>"

text \<open>The external calls made between two states.\<close>

definition calls_since :: "world \<Rightarrow> world \<Rightarrow> (call \<times> (exn + int)) list" where
  "calls_since w w' = drop (length (trace w)) (trace w')"

section \<open>Delivery classification (the except branch of handle_reply)\<close>

text \<open>
  The \<open>if/elif\<close> chain over \<open>error_message = str(e).lower()\<close>; \<open>user\<close> is the
  document found for the topic. The template of the last branch embeds \<open>str(e)\<close>, not the
  lowered text.
\<close>

definition classify :: "user_doc \<Rightarrow> exn \<Rightarrow> notice" where
  "classify user e =
     (if contains ''blocked'' (lower (str e)) \<or> contains ''bot was blocked'' (lower (str e))
      then RecipientBlocked (user_id user) (user_name user) (username user)
      else if contains ''chat not found'' (lower (str e))
              \<or> contains ''user not found'' (lower (str e))
      then RecipientAccountMissing (user_id user)
      else if contains ''bot can't initiate conversation'' (lower (str e))
      then CannotInitiateConversation (user_id user)
      else if contains ''forbidden'' (lower (str e))
      then Forbidden (user_id user)
      else Unknown (user_id user) (str e))"

text \<open>The level of the line logged with each notice.\<close>

fun notice_level :: "notice \<Rightarrow> level" where
  "notice_level (Unknown _ _) = ERROR"
| "notice_level _ = WARNING"

section \<open>DatabaseManager\<close>

text \<open>
  \<open>users.update_one({"user_id": ..}, {"$set": ..}, upsert=True)\<close>: the first document
  with that \<open>user_id\<close> gets the fields of the new one, or the new one is inserted.
  \<open>users.delete_one\<close> removes the first match.
\<close>

fun update_one_upsert :: "user_doc \<Rightarrow> user_doc list \<Rightarrow> user_doc list" where
  "update_one_upsert d [] = [d]"
| "update_one_upsert d (u # us) =
     (if user_id u = user_id d then d # us else u # update_one_upsert d us)"

fun delete_one :: "int \<Rightarrow> user_doc list \<Rightarrow> user_doc list" where
  "delete_one uid [] = []"
| "delete_one uid (u # us) = (if user_id u = uid then us else u # delete_one uid us)"

text \<open>\<open>get_user_topic\<close> has no \<open>try\<close>: an exception of \<open>find_one\<close> propagates.\<close>

definition get_user_topic :: "env \<Rightarrow> int \<Rightarrow> world \<Rightarrow> (exn + int option) \<times> world" where
  "get_user_topic env uid w =
     (case perform env (UsersFindOneByUser uid) w of
        (Inl e, w1) \<Rightarrow> (Inl e, w1)
      | (Inr _, w1) \<Rightarrow>
          (Inr (map_option topic_id (find (\<lambda>d. user_id d = uid) (users w1))), w1))"

text \<open>\<open>save_user_topic\<close> catches every exception and returns \<open>False\<close>.\<close>

definition save_user_topic ::
  "env \<Rightarrow> int \<Rightarrow> int \<Rightarrow> string \<Rightarrow> string \<Rightarrow> world \<Rightarrow> bool \<times> world" where
  "save_user_topic env uid tid name handle w =
     (case perform env
        (UsersUpdateOne \<lparr>user_id = uid, topic_id = tid, user_name = name, username = handle\<rparr>) w of
        (Inl e, w1) \<Rightarrow> (False, add_log ERROR ''Error saving user topic'' w1)
      | (Inr _, w1) \<Rightarrow>
          (True,
           add_log INFO ''Saved user''
             (w1\<lparr>users := update_one_upsert
                \<lparr>user_id = uid, topic_id = tid, user_name = name, username = handle\<rparr>
                (users w1)\<rparr>)))"

text \<open>\<open>log_message\<close> catches every exception and returns nothing.\<close>

definition log_message ::
  "env \<Rightarrow> int \<Rightarrow> string \<Rightarrow> string \<Rightarrow> string option \<Rightarrow> world \<Rightarrow> world" where
  "log_message env uid mtype dir c w =
     (case perform env
        (MessagesInsertOne \<lparr>m_user_id = uid, message_type = mtype, direction = dir, content = c\<rparr>)
        w of
        (Inl e, w1) \<Rightarrow> add_log ERROR ''Error logging message'' w1
      | (Inr _, w1) \<Rightarrow>
          w1\<lparr>messages := messages w1 @
            [\<lparr>m_user_id = uid, message_type = mtype, direction = dir, content = c\<rparr>]\<rparr>)"

text \<open>The two direct uses of \<open>db.users\<close> outside the class.\<close>

definition users_delete_one :: "env \<Rightarrow> int \<Rightarrow> world \<Rightarrow> (exn + unit) \<times> world" where
  "users_delete_one env uid w =
     (case perform env (UsersDeleteOne uid) w of
        (Inl e, w1) \<Rightarrow> (Inl e, w1)
      | (Inr _, w1) \<Rightarrow> (Inr (), w1\<lparr>users := delete_one uid (users w1)\<rparr>))"

definition users_find_one_topic ::
  "env \<Rightarrow> int \<Rightarrow> world \<Rightarrow> (exn + user_doc option) \<times> world" where
  "users_find_one_topic env tid w =
     (case perform env (UsersFindOneByTopic tid) w of
        (Inl e, w1) \<Rightarrow> (Inl e, w1)
      | (Inr _, w1) \<Rightarrow> (Inr (find (\<lambda>d. topic_id d = tid) (users w1)), w1))"

section \<open>Support bot functions\<close>

definition AUTO_REPLY_ENABLED :: bool where
  "AUTO_REPLY_ENABLED = True"

definition AUTO_REPLY_MESSAGE :: string where
  "AUTO_REPLY_MESSAGE = ''Message received! Our team will reply in a few hours. Thank you!''"

text \<open>\<open>send_auto_reply\<close>: the failure of the reply is logged, never raised.\<close>

definition send_auto_reply :: "env \<Rightarrow> update \<Rightarrow> world \<Rightarrow> world" where
  "send_auto_reply env u w =
     (if \<not> AUTO_REPLY_ENABLED then w
      else (case perform env (ReplyText (chat_id u) AUTO_REPLY_MESSAGE) w of
              (Inl e, w1) \<Rightarrow> add_log ERROR ''Error sending auto-reply'' w1
            | (Inr _, w1) \<Rightarrow> add_log INFO ''Sent auto-reply'' w1))"

text \<open>
  The \<open>try\<close> block of \<open>get_or_create_topic\<close>, entered when \<open>not topic_id\<close>. The result
  of \<open>save_user_topic\<close> is not looked at. Any exception is logged and raised again.
\<close>

definition create_topic ::
  "env \<Rightarrow> int \<Rightarrow> string \<Rightarrow> string \<Rightarrow> world \<Rightarrow> (exn + int) \<times> world" where
  "create_topic env uid name handle w =
     (case perform env (CreateForumTopic (take 20 name)) w of
        (Inl e, w1) \<Rightarrow> (Inl e, add_log ERROR ''Error creating topic'' w1)
      | (Inr new_id, w1) \<Rightarrow>
          (case save_user_topic env uid new_id name handle w1 of
             (saved, w2) \<Rightarrow>
               (case perform env
                  (SendWelcome new_id name uid (if handle = [] then ''None'' else handle)) w2 of
                  (Inl e, w3) \<Rightarrow> (Inl e, add_log ERROR ''Error creating topic'' w3)
                | (Inr _, w3) \<Rightarrow> (Inr new_id, add_log INFO ''Created new topic'' w3))))"

text \<open>
  \<open>get_or_create_topic\<close>. \<open>if not topic_id\<close> holds for \<open>None\<close> (no document) and for
  the integer \<open>0\<close>.
\<close>

definition get_or_create_topic ::
  "env \<Rightarrow> int \<Rightarrow> string \<Rightarrow> string \<Rightarrow> world \<Rightarrow> (exn + int) \<times> world" where
  "get_or_create_topic env uid name handle w =
     (case get_user_topic env uid w of
        (Inl e, w1) \<Rightarrow> (Inl e, w1)
      | (Inr None, w1) \<Rightarrow> create_topic env uid name handle w1
      | (Inr (Some t), w1) \<Rightarrow>
          (if t = 0 then create_topic env uid name handle w1 else (Inr t, w1)))"

text \<open>The test of the \<open>except\<close> branch of \<open>forward_to_support\<close>.\<close>

definition thread_not_found :: "exn \<Rightarrow> bool" where
  "thread_not_found e =
     (contains ''thread not found'' (lower (str e))
      \<or> contains ''message thread not found'' (lower (str e)))"

text \<open>
  \<open>forward_to_support\<close>: one forward; on a thread-not-found error the document of the user
  is deleted, a topic is obtained again and the forward is repeated outside any \<open>try\<close>.
\<close>

definition forward_to_support ::
  "env \<Rightarrow> int \<Rightarrow> int \<Rightarrow> int \<Rightarrow> int \<Rightarrow> string \<Rightarrow> string \<Rightarrow> world \<Rightarrow> (exn + int) \<times> world" where
  "forward_to_support env uid chat mid tid name handle w =
     (case perform env (ForwardMessage chat mid tid) w of
        (Inr _, w1) \<Rightarrow> (Inr tid, w1)
      | (Inl e, w1) \<Rightarrow>
          (if thread_not_found e then
             (case users_delete_one env uid (add_log WARNING ''Topic was deleted'' w1) of
                (Inl e1, w2) \<Rightarrow> (Inl e1, w2)
              | (Inr _, w2) \<Rightarrow>
                  (case get_or_create_topic env uid name handle w2 of
                     (Inl e2, w3) \<Rightarrow> (Inl e2, w3)
                   | (Inr new_topic_id, w3) \<Rightarrow>
                       (case perform env (ForwardMessage chat mid new_topic_id) w3 of
                          (Inl e3, w4) \<Rightarrow> (Inl e3, w4)
                        | (Inr _, w4) \<Rightarrow> (Inr new_topic_id, w4))))
           else (Inl e, w1)))"

text \<open>
  The forward of \<open>handle_voice\<close> and \<open>handle_video_note\<close>, which call
  \<open>context.bot.forward_message\<close> themselves.
\<close>

definition forward_direct ::
  "env \<Rightarrow> int \<Rightarrow> int \<Rightarrow> int \<Rightarrow> world \<Rightarrow> (exn + int) \<times> world" where
  "forward_direct env chat mid tid w =
     (case perform env (ForwardMessage chat mid tid) w of
        (Inl e, w1) \<Rightarrow> (Inl e, w1)
      | (Inr _, w1) \<Rightarrow> (Inr tid, w1))"

section \<open>User message handlers\<close>

text \<open>
  The eight handlers share one body and differ in four places: whether the forward goes
  through \<open>forward_to_support\<close>, the \<open>message_type\<close> and the content given to
  \<open>log_message\<close>, and the text replied in the \<open>except\<close> branch (none for stickers and
  video notes). \<open>relay\<close> is the \<open>try\<close> block, \<open>handle_inbound\<close> the whole handler, which
  returns the exception that escapes it, if any. The lines logged differ between the handlers
  only in the name of the kind of message (\<open>Error handling photo\<close>, \<open>Forwarded video\<close>);
  the model logs \<open>Error handling message\<close> and \<open>Forwarded\<close> for all of them.
\<close>

definition relay ::
  "bool \<Rightarrow> string \<Rightarrow> string option \<Rightarrow> env \<Rightarrow> update \<Rightarrow> world \<Rightarrow> (exn + unit) \<times> world" where
  "relay via_support mtype c env u w =
     (case get_or_create_topic env (from_id u) (or_default (first_name u) ''User'')
             (or_default (from_username u) ''no_username'') (send_auto_reply env u w) of
        (Inl e, w1) \<Rightarrow> (Inl e, w1)
      | (Inr tid, w1) \<Rightarrow>
          (case (if via_support
                 then forward_to_support env (from_id u) (chat_id u) (message_id u) tid
                        (or_default (first_name u) ''User'')
                        (or_default (from_username u) ''no_username'') w1
                 else forward_direct env (chat_id u) (message_id u) tid w1) of
             (Inl e, w2) \<Rightarrow> (Inl e, w2)
           | (Inr _, w2) \<Rightarrow>
               (Inr (), add_log INFO ''Forwarded'' (log_message env (from_id u) mtype ''from_user'' c w2))))"

definition handle_inbound ::
  "bool \<Rightarrow> string \<Rightarrow> string option \<Rightarrow> string option \<Rightarrow> env \<Rightarrow> update \<Rightarrow> world
     \<Rightarrow> exn option \<times> world" where
  "handle_inbound via_support mtype c apology env u w =
     (if chat_type u \<noteq> Private then (None, w)
      else (case relay via_support mtype c env u w of
              (Inr _, w1) \<Rightarrow> (None, w1)
            | (Inl e, w1) \<Rightarrow>
                (case apology of
                   None \<Rightarrow> (None, add_log ERROR ''Error handling message'' w1)
                 | Some t \<Rightarrow>
                     (case perform env (ReplyText (chat_id u) t)
                             (add_log ERROR ''Error handling message'' w1) of
                        (Inl e1, w2) \<Rightarrow> (Some e1, w2)
                      | (Inr _, w2) \<Rightarrow> (None, w2)))))"

definition handle_text_message :: "env \<Rightarrow> update \<Rightarrow> world \<Rightarrow> exn option \<times> world" where
  "handle_text_message env u =
     handle_inbound True ''text'' (msg_text u)
       (Some ''Sorry, there was an error processing your message. Please try again.'') env u"

definition handle_photo :: "env \<Rightarrow> update \<Rightarrow> world \<Rightarrow> exn option \<times> world" where
  "handle_photo env u =
     handle_inbound True ''photo'' (caption u) (Some ''Error sending photo. Please try again.'') env u"

definition handle_video :: "env \<Rightarrow> update \<Rightarrow> world \<Rightarrow> exn option \<times> world" where
  "handle_video env u =
     handle_inbound True ''video'' (caption u) (Some ''Error sending video. Please try again.'') env u"

definition handle_document :: "env \<Rightarrow> update \<Rightarrow> world \<Rightarrow> exn option \<times> world" where
  "handle_document env u =
     handle_inbound True ''document''
       (case document u of None \<Rightarrow> Some ''file'' | Some (file_id, file_name) \<Rightarrow> file_name)
       (Some ''Error sending file. Please try again.'') env u"

definition handle_voice :: "env \<Rightarrow> update \<Rightarrow> world \<Rightarrow> exn option \<times> world" where
  "handle_voice env u =
     handle_inbound False ''voice'' None
       (Some ''Error sending voice message. Please try again.'') env u"

definition handle_audio :: "env \<Rightarrow> update \<Rightarrow> world \<Rightarrow> exn option \<times> world" where
  "handle_audio env u =
     handle_inbound True ''audio'' None (Some ''Error sending audio. Please try again.'') env u"

definition handle_sticker :: "env \<Rightarrow> update \<Rightarrow> world \<Rightarrow> exn option \<times> world" where
  "handle_sticker env u = handle_inbound True ''sticker'' None None env u"

definition handle_video_note :: "env \<Rightarrow> update \<Rightarrow> world \<Rightarrow> exn option \<times> world" where
  "handle_video_note env u = handle_inbound False ''video_note'' None None env u"

definition inbound_handlers :: "(env \<Rightarrow> update \<Rightarrow> world \<Rightarrow> exn option \<times> world) list" where
  "inbound_handlers =
     [handle_text_message, handle_photo, handle_video, handle_document,
      handle_voice, handle_audio, handle_sticker, handle_video_note]"

section \<open>Support team handler\<close>

text \<open>
  The \<open>if/elif\<close> chain of \<open>handle_reply\<close> over the content of the staff message: the
  send it makes and the \<open>message_type\<close> it sets. A string is falsy when absent or empty, a
  list when empty, a media object when absent. When no branch applies nothing is sent and
  \<open>message_type\<close> keeps its initial value \<open>"text"\<close>.
\<close>

definition reply_media :: "int \<Rightarrow> update \<Rightarrow> (call \<times> string) option" where
  "reply_media uid u =
     (if photo u \<noteq> [] then Some (SendPhoto uid (last (photo u)) (caption u), ''photo'')
      else (case video u of Some f \<Rightarrow> Some (SendVideo uid f (caption u), ''video'') | None \<Rightarrow>
           (case document u of Some (f, n) \<Rightarrow> Some (SendDocument uid f (caption u), ''document'') | None \<Rightarrow>
           (case voice u of Some f \<Rightarrow> Some (SendVoice uid f (caption u), ''voice'') | None \<Rightarrow>
           (case audio u of Some f \<Rightarrow> Some (SendAudio uid f (caption u), ''audio'') | None \<Rightarrow>
           (case sticker u of Some f \<Rightarrow> Some (SendSticker uid f, ''sticker'') | None \<Rightarrow>
           (case video_note u of Some f \<Rightarrow> Some (SendVideoNote uid f, ''video_note'') | None \<Rightarrow>
            None)))))))"

definition reply_send :: "int \<Rightarrow> update \<Rightarrow> (call \<times> string) option" where
  "reply_send uid u =
     (case msg_text u of
        None \<Rightarrow> reply_media uid u
      | Some t \<Rightarrow> (if t \<noteq> [] then Some (SendMessage uid t, ''text'') else reply_media uid u))"

text \<open>
  The \<open>try\<close> block of \<open>handle_reply\<close> up to the last send: the \<open>message_type\<close>, or
  the exception of the send.
\<close>

definition send_reply :: "env \<Rightarrow> int \<Rightarrow> update \<Rightarrow> world \<Rightarrow> (exn + string) \<times> world" where
  "send_reply env uid u w =
     (case reply_send uid u of
        None \<Rightarrow> (Inr ''text'', w)
      | Some (c, mtype) \<Rightarrow>
          (case perform env c w of
             (Inl e, w1) \<Rightarrow> (Inl e, w1)
           | (Inr _, w1) \<Rightarrow> (Inr mtype, w1)))"

text \<open>
  \<open>handle_reply\<close>, with \<open>SUPPORT_GROUP_ID\<close> as its first argument. The lookup of the
  user by topic stands before the \<open>try\<close>: its exception escapes the handler. The
  \<open>except\<close> branch classifies, logs, and replies into the topic inside a \<open>try\<close> of its
  own.
  The line logged with the notice (a warning, or an error for the last branch) is
  \<open>Cannot send message\<close> in the model, whichever the branch.
\<close>

definition handle_reply :: "int \<Rightarrow> env \<Rightarrow> update \<Rightarrow> world \<Rightarrow> exn option \<times> world" where
  "handle_reply SUPPORT_GROUP_ID env u w =
     (if chat_id u \<noteq> SUPPORT_GROUP_ID then (None, w)
      else (case message_thread_id u of
              None \<Rightarrow> (None, w)
            | Some tid \<Rightarrow>
                (if tid = 0 then (None, w)
                 else (case users_find_one_topic env tid w of
                         (Inl e, w1) \<Rightarrow> (Some e, w1)
                       | (Inr None, w1) \<Rightarrow> (None, add_log WARNING ''No user found for topic'' w1)
                       | (Inr (Some user), w1) \<Rightarrow>
                           (case send_reply env (user_id user) u w1 of
                              (Inr mtype, w2) \<Rightarrow>
                                (None,
                                 add_log INFO ''Sent reply''
                                   (log_message env (user_id user) mtype ''to_user'' (msg_text u) w2))
                            | (Inl e, w2) \<Rightarrow>
                                (case perform env (ReplyNotice tid (classify user e))
                                        (add_log (notice_level (classify user e))
                                           ''Cannot send message'' w2) of
                                   (Inl e1, w3) \<Rightarrow>
                                     (None, add_log ERROR ''Failed to send error notification'' w3)
                                 | (Inr _, w3) \<Rightarrow> (None, w3)))))))"

section \<open>Error handler\<close>

text \<open>
  \<open>error_handler\<close> (main.py:663-665) logs the exception it is given. \<open>main\<close> registers
  it with \<open>app.add_error_handler(error_handler)\<close> (main.py:739): an exception that escapes a
  handler is given to it, and the bot goes on with the next update. \<open>process_update\<close> is
  one update given to one handler under that registration; it returns the state in which the
  next update is processed.
\<close>

definition error_handler :: "exn \<Rightarrow> world \<Rightarrow> world" where
  "error_handler e w = add_log ERROR ''Exception'' w"

definition process_update ::
  "(env \<Rightarrow> update \<Rightarrow> world \<Rightarrow> exn option \<times> world) \<Rightarrow> env \<Rightarrow> update \<Rightarrow> world \<Rightarrow> world" where
  "process_update h env u w =
     (case h env u w of
        (None, w1) \<Rightarrow> w1
      | (Some e, w1) \<Rightarrow> error_handler e w1)"

section \<open>Auxiliary notions for the proofs\<close>

text \<open>
  What a call that may raise leaves behind, as a function of the answer of the environment:
  the result of a call whose value is \<open>a\<close>, the \<open>users\<close> collection after
  \<open>save_user_topic\<close>, the \<open>messages\<close> collection after \<open>log_message\<close>; and the state in
  which \<open>forward_to_support\<close> asks for a topic again, after the forward \<open>c\<close> raised
  \<open>e\<close> and the document of the user was deleted.
\<close>

definition result_of :: "exn + int \<Rightarrow> 'a \<Rightarrow> exn + 'a" where
  "result_of x a = (case x of Inl e \<Rightarrow> Inl e | Inr _ \<Rightarrow> Inr a)"

definition users_after_save :: "exn + int \<Rightarrow> user_doc \<Rightarrow> user_doc list \<Rightarrow> user_doc list" where
  "users_after_save x d us = (case x of Inl _ \<Rightarrow> us | Inr _ \<Rightarrow> update_one_upsert d us)"

definition messages_after_log ::
  "exn + int \<Rightarrow> message_doc \<Rightarrow> message_doc list \<Rightarrow> message_doc list" where
  "messages_after_log x d ms = (case x of Inl _ \<Rightarrow> ms | Inr _ \<Rightarrow> ms @ [d])"

definition repair_state :: "world \<Rightarrow> call \<Rightarrow> exn \<Rightarrow> int \<Rightarrow> int \<Rightarrow> world" where
  "repair_state w c e uid v =
     w\<lparr>logged := logged w @ [(WARNING, ''Topic was deleted'')],
       trace := trace w @ [(c, Inl e), (UsersDeleteOne uid, Inr v)],
       users := delete_one uid (users w)\<rparr>"

text \<open>Every forward in a list of calls raised: the message reached no topic.\<close>

definition raised_forwards :: "(call \<times> (exn + int)) list \<Rightarrow> bool" where
  "raised_forwards cs = (\<forall>c a. (c, a) \<in> set cs \<and> is_forward c \<longrightarrow> isl a)"

text \<open>The number of calls of one kind in a list of calls.\<close>

fun is_delete :: "call \<Rightarrow> bool" where
  "is_delete (UsersDeleteOne _) = True"
| "is_delete _ = False"

definition count_calls :: "(call \<Rightarrow> bool) \<Rightarrow> (call \<times> (exn + int)) list \<Rightarrow> nat" where
  "count_calls P cs = length (filter (\<lambda>x. P (fst x)) cs)"

section \<open>Sample states and environments\<close>

text \<open>
  Concrete inputs for the closed theorems below: the user Ann (id 7) bound to topic 5, a
  private text message from her, and environments in which every call returns (new topics
  get the id 9) or one kind of call raises.
\<close>

definition ann :: user_doc where
  "ann = \<lparr>user_id = 7, topic_id = 5, user_name = ''Ann'', username = ''ann''\<rparr>"

definition store_empty :: world where
  "store_empty = \<lparr>users = [], messages = [], trace = [], logged = []\<rparr>"

definition store_ann :: world where
  "store_ann = \<lparr>users = [ann], messages = [], trace = [], logged = []\<rparr>"

definition text_from_ann :: update where
  "text_from_ann =
     \<lparr>chat_type = Private, chat_id = 7, from_id = 7, first_name = Some ''Ann'',
      from_username = Some ''ann'', message_id = 31, message_thread_id = None,
      msg_text = Some ''hello'', caption = None, photo = [], video = None, document = None,
      voice = None, audio = None, sticker = None, video_note = None\<rparr>"

definition env_ok :: env where
  "env_ok n c = Inr 9"

definition env_no_topics :: env where
  "env_no_topics n c =
     (if is_create c then Inl (Exception ''Bad Request: not enough rights to create a topic'')
      else Inr 9)"

definition store_zero :: world where
  "store_zero = \<lparr>users = [ann\<lparr>topic_id := 0\<rparr>], messages = [], trace = [], logged = []\<rparr>"

text \<open>A staff message in topic 5 of the support group (id -100), and one without content
  that \<open>handle_reply\<close> can send (a location, a poll, a contact).\<close>

definition reply_in_topic :: update where
  "reply_in_topic =
     \<lparr>chat_type = Supergroup, chat_id = -100, from_id = 2, first_name = Some ''Staff'',
      from_username = None, message_id = 40, message_thread_id = Some 5,
      msg_text = Some ''hi'', caption = None, photo = [], video = None, document = None,
      voice = None, audio = None, sticker = None, video_note = None\<rparr>"

definition location_in_topic :: update where
  "location_in_topic = reply_in_topic\<lparr>msg_text := None\<rparr>"

definition voice_from_ann :: update where
  "voice_from_ann = text_from_ann\<lparr>msg_text := None, voice := Some ''file-1''\<rparr>"

definition env_blocked :: env where
  "env_blocked n c =
     (if is_send c then Inl (Exception ''Forbidden: bot was blocked by the user'') else Inr 9)"

definition env_thread_gone :: env where
  "env_thread_gone n c =
     (if c = ForwardMessage 7 31 5 then Inl (Exception ''Bad Request: message thread not found'')
      else Inr 9)"

definition env_upsert_fails :: env where
  "env_upsert_fails n c =
     (case c of UsersUpdateOne d \<Rightarrow> Inl (Exception ''ServerSelectionTimeoutError'') | _ \<Rightarrow> Inr 9)"

definition env_store_down :: env where
  "env_store_down n c =
     (if is_store c then Inl (Exception ''ServerSelectionTimeoutError'') else Inr 9)"

text \<open>
  Topic 5 is reported missing and the upsert raises; and topic 5 is reported missing once
  (by the third call of the event) while every new topic gets the id 5 again.
\<close>

definition env_heal_no_save :: env where
  "env_heal_no_save n c =
     (if c = ForwardMessage 7 31 5 then Inl (Exception ''Bad Request: message thread not found'')
      else (case c of UsersUpdateOne d \<Rightarrow> Inl (Exception ''ServerSelectionTimeoutError'')
            | _ \<Rightarrow> Inr 9))"

definition env_same_id :: env where
  "env_same_id n c =
     (if c = ForwardMessage 7 31 5 \<and> n = 2
      then Inl (Exception ''Bad Request: message thread not found'')
      else Inr 5)"

section \<open>Basic facts\<close>

lemma perform_unfold:
  "perform env c w =
     (case env (length (trace w)) c of
        Inl e \<Rightarrow> (Inl e, w\<lparr>trace := trace w @ [(c, Inl e)]\<rparr>)
      | Inr v \<Rightarrow> (Inr v, w\<lparr>trace := trace w @ [(c, Inr v)]\<rparr>))"
  by (simp add: perform_def split: sum.splits)

lemmas io_splits = prod.splits sum.splits option.splits if_splits

text \<open>\<open>contains\<close> is the substring relation of the library.\<close>

lemma contains_sublist: "contains n h \<longleftrightarrow> sublist n h"
  by (induction h) (auto simp: sublist_Cons_right)

lemma lower_samples:
  "lower ''Forbidden: bot was blocked by the user'' = ''forbidden: bot was blocked by the user''"
  "lower ''Bad Request: chat not found'' = ''bad request: chat not found''"
  "lower ''Forbidden: bot can't initiate conversation with a user''
     = ''forbidden: bot can't initiate conversation with a user''"
  "lower ''Forbidden: user is deactivated'' = ''forbidden: user is deactivated''"
  "lower ''Timed out'' = ''timed out''"
  by (simp_all add: lower_def lower_char_def)

text \<open>The definitions a run on a sample input unfolds.\<close>

lemmas run_defs = perform_def add_log_def get_user_topic_def save_user_topic_def log_message_def
  users_delete_one_def users_find_one_topic_def send_auto_reply_def create_topic_def
  get_or_create_topic_def forward_to_support_def forward_direct_def relay_def handle_inbound_def
  handle_text_message_def handle_voice_def handle_reply_def send_reply_def reply_send_def
  reply_media_def calls_since_def AUTO_REPLY_ENABLED_def AUTO_REPLY_MESSAGE_def
  ann_def store_empty_def store_ann_def text_from_ann_def env_ok_def env_no_topics_def
  store_zero_def reply_in_topic_def location_in_topic_def voice_from_ann_def env_blocked_def
  env_thread_gone_def env_upsert_fails_def env_store_down_def thread_not_found_def
  lower_def lower_char_def classify_def

section \<open>What each function does, case by case\<close>

text \<open>
  One rule per function: the ways it can end, each with the calls it appended to the trace and
  the two collections it leaves.
\<close>

lemma result_of_simps [simp]:
  "result_of (Inl e) a = Inl e" "result_of (Inr v) a = Inr a"
  by (simp_all add: result_of_def)

lemma users_after_save_simps [simp]:
  "users_after_save (Inl e) d us = us" "users_after_save (Inr v) d us = update_one_upsert d us"
  by (simp_all add: users_after_save_def)

lemma messages_after_log_simps [simp]:
  "messages_after_log (Inl e) d ms = ms" "messages_after_log (Inr v) d ms = ms @ [d]"
  by (simp_all add: messages_after_log_def)

lemma send_auto_reply_effect:
  "\<exists>a. trace (send_auto_reply env u w) = trace w @ [(ReplyText (chat_id u) AUTO_REPLY_MESSAGE, a)]
       \<and> users (send_auto_reply env u w) = users w
       \<and> messages (send_auto_reply env u w) = messages w"
  by (auto simp: send_auto_reply_def AUTO_REPLY_ENABLED_def add_log_def perform_unfold split: io_splits)

lemma get_or_create_topic_goal:
  "case get_or_create_topic env uid name handle w of (r, w') \<Rightarrow>
     messages w' = messages w \<and>
     ((\<exists>e. r = Inl e \<and> trace w' = trace w @ [(UsersFindOneByUser uid, Inl e)] \<and> users w' = users w)
      \<or> (\<exists>v d. r = Inr (topic_id d) \<and> find (\<lambda>d. user_id d = uid) (users w) = Some d
              \<and> topic_id d \<noteq> 0
              \<and> trace w' = trace w @ [(UsersFindOneByUser uid, Inr v)] \<and> users w' = users w)
      \<or> (\<exists>v e. r = Inl e
              \<and> map_option topic_id (find (\<lambda>d. user_id d = uid) (users w)) \<in> {None, Some 0}
              \<and> trace w' = trace w @ [(UsersFindOneByUser uid, Inr v),
                                       (CreateForumTopic (take 20 name), Inl e)]
              \<and> users w' = users w)
      \<or> (\<exists>v t x y. map_option topic_id (find (\<lambda>d. user_id d = uid) (users w)) \<in> {None, Some 0}
              \<and> trace w' = trace w @
                   [(UsersFindOneByUser uid, Inr v), (CreateForumTopic (take 20 name), Inr t),
                    (UsersUpdateOne \<lparr>user_id = uid, topic_id = t, user_name = name, username = handle\<rparr>, x),
                    (SendWelcome t name uid (if handle = [] then ''None'' else handle), y)]
              \<and> users w' = users_after_save x
                    \<lparr>user_id = uid, topic_id = t, user_name = name, username = handle\<rparr> (users w)
              \<and> r = result_of y t))"
  by (simp add: get_or_create_topic_def create_topic_def get_user_topic_def save_user_topic_def
        add_log_def perform_unfold split: sum.splits prod.splits option.splits)

lemma get_or_create_topic_cases [consumes 1, case_names lookup_failed fast create_failed created]:
  assumes "get_or_create_topic env uid name handle w = (r, w')"
  obtains
    (lookup_failed) e where "r = Inl e"
      and "trace w' = trace w @ [(UsersFindOneByUser uid, Inl e)]"
      and "users w' = users w" and "messages w' = messages w"
  | (fast) v d where "r = Inr (topic_id d)"
      and "find (\<lambda>d. user_id d = uid) (users w) = Some d" and "topic_id d \<noteq> 0"
      and "trace w' = trace w @ [(UsersFindOneByUser uid, Inr v)]"
      and "users w' = users w" and "messages w' = messages w"
  | (create_failed) v e where "r = Inl e"
      and "map_option topic_id (find (\<lambda>d. user_id d = uid) (users w)) \<in> {None, Some 0}"
      and "trace w' = trace w @ [(UsersFindOneByUser uid, Inr v),
                                  (CreateForumTopic (take 20 name), Inl e)]"
      and "users w' = users w" and "messages w' = messages w"
  | (created) v t x y where "r = result_of y t"
      and "map_option topic_id (find (\<lambda>d. user_id d = uid) (users w)) \<in> {None, Some 0}"
      and "trace w' = trace w @
             [(UsersFindOneByUser uid, Inr v), (CreateForumTopic (take 20 name), Inr t),
              (UsersUpdateOne \<lparr>user_id = uid, topic_id = t, user_name = name, username = handle\<rparr>, x),
              (SendWelcome t name uid (if handle = [] then ''None'' else handle), y)]"
      and "users w' = users_after_save x
             \<lparr>user_id = uid, topic_id = t, user_name = name, username = handle\<rparr> (users w)"
      and "messages w' = messages w"
  using get_or_create_topic_goal [where env = env and uid = uid and name = name
      and handle = handle and w = w] assms
  by simp blast

lemma forward_direct_cases [consumes 1, case_names forwarded failed]:
  assumes "forward_direct env chat mid tid w = (r, w')"
  obtains
    (forwarded) v where "r = Inr tid"
      and "trace w' = trace w @ [(ForwardMessage chat mid tid, Inr v)]"
      and "users w' = users w" and "messages w' = messages w"
  | (failed) e where "r = Inl e"
      and "trace w' = trace w @ [(ForwardMessage chat mid tid, Inl e)]"
      and "users w' = users w" and "messages w' = messages w"
proof (cases "env (length (trace w)) (ForwardMessage chat mid tid)")
  case (Inr v)
  with assms show ?thesis
    by (intro forwarded [of v]) (auto simp: forward_direct_def perform_unfold)
next
  case (Inl e)
  with assms show ?thesis
    by (intro failed [of e]) (auto simp: forward_direct_def perform_unfold)
qed

lemma repair_state_simps [simp]:
  "trace (repair_state w c e uid v) = trace w @ [(c, Inl e), (UsersDeleteOne uid, Inr v)]"
  "users (repair_state w c e uid v) = delete_one uid (users w)"
  "messages (repair_state w c e uid v) = messages w"
  by (simp_all add: repair_state_def)

lemma forward_to_support_cases
  [consumes 1, case_names forwarded other_error delete_failed repair_failed repaired]:
  assumes run: "forward_to_support env uid chat mid tid name handle w = (r, w')"
  obtains
    (forwarded) v where "r = Inr tid"
      and "trace w' = trace w @ [(ForwardMessage chat mid tid, Inr v)]"
      and "users w' = users w" and "messages w' = messages w"
  | (other_error) e where "r = Inl e" and "\<not> thread_not_found e"
      and "trace w' = trace w @ [(ForwardMessage chat mid tid, Inl e)]"
      and "users w' = users w" and "messages w' = messages w"
  | (delete_failed) e e1 where "r = Inl e1" and "thread_not_found e"
      and "trace w' = trace w @ [(ForwardMessage chat mid tid, Inl e), (UsersDeleteOne uid, Inl e1)]"
      and "users w' = users w" and "messages w' = messages w"
  | (repair_failed) e v e2 where "r = Inl e2" and "thread_not_found e"
      and "get_or_create_topic env uid name handle
             (repair_state w (ForwardMessage chat mid tid) e uid v) = (Inl e2, w')"
  | (repaired) e v t w3 x where "r = result_of x t" and "thread_not_found e"
      and "get_or_create_topic env uid name handle
             (repair_state w (ForwardMessage chat mid tid) e uid v) = (Inr t, w3)"
      and "trace w' = trace w3 @ [(ForwardMessage chat mid t, x)]"
      and "users w' = users w3" and "messages w' = messages w3"
proof (cases "env (length (trace w)) (ForwardMessage chat mid tid)")
  case (Inr v)
  with run show ?thesis
    by (intro forwarded [of v]) (auto simp: forward_to_support_def perform_unfold)
next
  case fwd: (Inl e)
  show ?thesis
  proof (cases "thread_not_found e")
    case False
    with run fwd show ?thesis
      by (intro other_error [of e]) (auto simp: forward_to_support_def perform_unfold)
  next
    case tnf: True
    show ?thesis
    proof (cases "env (Suc (length (trace w))) (UsersDeleteOne uid)")
      case (Inl e1)
      with run fwd tnf show ?thesis
        by (intro delete_failed [of e1 e])
           (auto simp: forward_to_support_def users_delete_one_def add_log_def perform_unfold)
    next
      case del: (Inr v)
      obtain r2 w3 where g: "get_or_create_topic env uid name handle
          (repair_state w (ForwardMessage chat mid tid) e uid v) = (r2, w3)"
        by fastforce
      note g' = g [unfolded repair_state_def]
      show ?thesis
      proof (cases r2)
        case (Inl e2)
        with run fwd tnf del g' have "r = Inl e2" and "w' = w3"
          by (auto simp: forward_to_support_def users_delete_one_def add_log_def perform_unfold)
        with g Inl tnf show ?thesis
          by (intro repair_failed [of e2 e v]) auto
      next
        case t: (Inr t)
        show ?thesis
        proof (cases "env (length (trace w3)) (ForwardMessage chat mid t)")
          case (Inl e3)
          with run fwd tnf del g' t
          have "r = Inl e3" and "w' = w3\<lparr>trace := trace w3 @ [(ForwardMessage chat mid t, Inl e3)]\<rparr>"
            by (auto simp: forward_to_support_def users_delete_one_def add_log_def perform_unfold)
          with g t tnf show ?thesis
            by (intro repaired [of "Inl e3" t e v w3]) auto
        next
          case (Inr v3)
          with run fwd tnf del g' t
          have "r = Inr t" and "w' = w3\<lparr>trace := trace w3 @ [(ForwardMessage chat mid t, Inr v3)]\<rparr>"
            by (auto simp: forward_to_support_def users_delete_one_def add_log_def perform_unfold)
          with g t tnf show ?thesis
            by (intro repaired [of "Inr v3" t e v w3]) auto
        qed
      qed
    qed
  qed
qed

lemma relay_cases [consumes 1, case_names resolve_failed forward_failed relayed]:
  assumes run: "relay via mtype c env u w = (r, w')"
  obtains
    (resolve_failed) e where "r = Inl e"
      and "get_or_create_topic env (from_id u) (or_default (first_name u) ''User'')
             (or_default (from_username u) ''no_username'') (send_auto_reply env u w) = (Inl e, w')"
  | (forward_failed) t w1 e where "r = Inl e"
      and "get_or_create_topic env (from_id u) (or_default (first_name u) ''User'')
             (or_default (from_username u) ''no_username'') (send_auto_reply env u w) = (Inr t, w1)"
      and "(if via
            then forward_to_support env (from_id u) (chat_id u) (message_id u) t
                   (or_default (first_name u) ''User'')
                   (or_default (from_username u) ''no_username'') w1
            else forward_direct env (chat_id u) (message_id u) t w1) = (Inl e, w')"
  | (relayed) t w1 t' w2 x where "r = Inr ()"
      and "get_or_create_topic env (from_id u) (or_default (first_name u) ''User'')
             (or_default (from_username u) ''no_username'') (send_auto_reply env u w) = (Inr t, w1)"
      and "(if via
            then forward_to_support env (from_id u) (chat_id u) (message_id u) t
                   (or_default (first_name u) ''User'')
                   (or_default (from_username u) ''no_username'') w1
            else forward_direct env (chat_id u) (message_id u) t w1) = (Inr t', w2)"
      and "trace w' = trace w2 @
             [(MessagesInsertOne \<lparr>m_user_id = from_id u, message_type = mtype,
                 direction = ''from_user'', content = c\<rparr>, x)]"
      and "users w' = users w2"
      and "messages w' = messages_after_log x
             \<lparr>m_user_id = from_id u, message_type = mtype, direction = ''from_user'', content = c\<rparr>
             (messages w2)"
proof -
  obtain r1 w1 where g: "get_or_create_topic env (from_id u) (or_default (first_name u) ''User'')
      (or_default (from_username u) ''no_username'') (send_auto_reply env u w) = (r1, w1)"
    by fastforce
  show ?thesis
  proof (cases r1)
    case (Inl e)
    with run g show ?thesis
      by (intro resolve_failed [of e]) (auto simp: relay_def)
  next
    case t: (Inr t)
    obtain r2 w2 where f: "(if via
            then forward_to_support env (from_id u) (chat_id u) (message_id u) t
                   (or_default (first_name u) ''User'')
                   (or_default (from_username u) ''no_username'') w1
            else forward_direct env (chat_id u) (message_id u) t w1) = (r2, w2)"
      by fastforce
    show ?thesis
    proof (cases r2)
      case (Inl e)
      with run g t f show ?thesis
        by (intro forward_failed [of e t w1]) (auto simp: relay_def)
    next
      case t': (Inr t')
      show ?thesis
      proof (cases "env (length (trace w2))
          (MessagesInsertOne \<lparr>m_user_id = from_id u, message_type = mtype,
             direction = ''from_user'', content = c\<rparr>)")
        case (Inl e)
        with run g t f t' show ?thesis
          by (intro relayed [of t w1 t' w2 "Inl e"])
             (auto simp: relay_def log_message_def add_log_def perform_unfold)
      next
        case (Inr v)
        with run g t f t' show ?thesis
          by (intro relayed [of t w1 t' w2 "Inr v"])
             (auto simp: relay_def log_message_def add_log_def perform_unfold)
      qed
    qed
  qed
qed

lemma find_delete_one:
  "distinct (map user_id us) \<Longrightarrow> find (\<lambda>d. user_id d = uid) (delete_one uid us) = None"
  by (induction us) (auto simp: find_None_iff image_iff)

lemma delete_one_no_uid:
  "distinct (map user_id us) \<Longrightarrow> x \<in> set (delete_one uid us) \<Longrightarrow> user_id x \<noteq> uid"
  by (induction us) (auto simp: image_iff split: if_splits)

lemma find_upsert:
  "find (\<lambda>x. user_id x = user_id d) (update_one_upsert d us) = Some d"
  by (induction us) auto

lemma set_upsert: "x \<in> set (update_one_upsert d us) \<Longrightarrow> x = d \<or> x \<in> set us"
  by (induction us) (auto split: if_splits)

lemma map_user_id_upsert:
  "map user_id (update_one_upsert d us) =
     (if user_id d \<in> user_id ` set us then map user_id us else map user_id us @ [user_id d])"
  by (induction us) auto

lemma distinct_upsert:
  "distinct (map user_id us) \<Longrightarrow> distinct (map user_id (update_one_upsert d us))"
  by (simp add: map_user_id_upsert)

lemma distinct_users_after_save:
  "distinct (map user_id us) \<Longrightarrow> distinct (map user_id (users_after_save x d us))"
  by (cases x) (simp_all add: distinct_upsert)

lemma get_or_create_topic_returned:
  assumes "get_or_create_topic env uid name handle w = (Inr t, w')"
    and "distinct (map user_id (users w))"
  obtains G where "trace w' = trace w @ G"
    and "\<forall>c \<in> set G. \<not> is_forward (fst c)"
    and "distinct (map user_id (users w'))"
    and "messages w' = messages w"
    and "map_option topic_id (find (\<lambda>d. user_id d = uid) (users w)) = Some t
         \<or> (CreateForumTopic (take 20 name), Inr t) \<in> set G"
  using assms(1)
proof (cases rule: get_or_create_topic_cases)
  case (fast v d)
  with assms(2) show ?thesis
    by (intro that [of "[(UsersFindOneByUser uid, Inr v)]"]) auto
next
  case (created v t' x y)
  then have "t' = t" by (cases y) auto
  with created assms(2) show ?thesis
    by (intro that [of "[(UsersFindOneByUser uid, Inr v), (CreateForumTopic (take 20 name), Inr t),
              (UsersUpdateOne \<lparr>user_id = uid, topic_id = t, user_name = name, username = handle\<rparr>, x),
              (SendWelcome t name uid (if handle = [] then ''None'' else handle), y)]"])
       (auto simp: distinct_users_after_save)
qed auto

lemma get_or_create_topic_effect:
  assumes "get_or_create_topic env uid name handle w = (r, w')"
  obtains G where "trace w' = trace w @ G" and "G \<noteq> []"
    and "messages w' = messages w"
    and "\<forall>c a. (c, a) \<in> set G \<longrightarrow> \<not> is_forward c"
    and "\<forall>e. r = Inl e \<longrightarrow> snd (last G) = Inl e"
    and "\<forall>uid' e. (UsersFindOneByUser uid', Inl e) \<in> set G \<longrightarrow>
           last G = (UsersFindOneByUser uid', Inl e) \<and> r = Inl e"
  using assms
proof (cases rule: get_or_create_topic_cases)
  case (lookup_failed e)
  then show ?thesis
    by (intro that [of "[(UsersFindOneByUser uid, Inl e)]"]) auto
next
  case (fast v d)
  then show ?thesis
    by (intro that [of "[(UsersFindOneByUser uid, Inr v)]"]) auto
next
  case (create_failed v e)
  then show ?thesis
    by (intro that [of "[(UsersFindOneByUser uid, Inr v), (CreateForumTopic (take 20 name), Inl e)]"]) auto
next
  case (created v t x y)
  then show ?thesis
    by (intro that [of "[(UsersFindOneByUser uid, Inr v), (CreateForumTopic (take 20 name), Inr t),
              (UsersUpdateOne \<lparr>user_id = uid, topic_id = t, user_name = name, username = handle\<rparr>, x),
              (SendWelcome t name uid (if handle = [] then ''None'' else handle), y)]"])
       (cases y; auto)+
qed

lemma raised_forwards_simps [simp]:
  "raised_forwards []"
  "raised_forwards ((c, a) # cs) = ((is_forward c \<longrightarrow> isl a) \<and> raised_forwards cs)"
  "raised_forwards (cs @ ds) = (raised_forwards cs \<and> raised_forwards ds)"
  by (auto simp: raised_forwards_def)

lemma forward_stage_effect:
  assumes "(if via then forward_to_support env uid chat mid tid name handle w
            else forward_direct env chat mid tid w) = (r, w')"
  obtains F where "trace w' = trace w @ F" and "F \<noteq> []"
    and "messages w' = messages w"
    and "\<forall>e. r = Inl e \<longrightarrow> snd (last F) = Inl e \<and> raised_forwards F"
    and "\<forall>uid' e. (UsersFindOneByUser uid', Inl e) \<in> set F \<longrightarrow>
            last F = (UsersFindOneByUser uid', Inl e) \<and> r = Inl e"
proof (cases via)
  case False
  with assms have "forward_direct env chat mid tid w = (r, w')" by simp
  then show ?thesis
  proof (cases rule: forward_direct_cases)
    case (forwarded v)
    then show ?thesis
      by (intro that [of "[(ForwardMessage chat mid tid, Inr v)]"]) auto
  next
    case (failed e)
    then show ?thesis
      by (intro that [of "[(ForwardMessage chat mid tid, Inl e)]"]) auto
  qed
next
  case True
  with assms have "forward_to_support env uid chat mid tid name handle w = (r, w')" by simp
  then show ?thesis
  proof (cases rule: forward_to_support_cases)
    case (forwarded v)
    then show ?thesis
      by (intro that [of "[(ForwardMessage chat mid tid, Inr v)]"]) auto
  next
    case (other_error e)
    then show ?thesis
      by (intro that [of "[(ForwardMessage chat mid tid, Inl e)]"]) auto
  next
    case (delete_failed e e1)
    then show ?thesis
      by (intro that [of "[(ForwardMessage chat mid tid, Inl e), (UsersDeleteOne uid, Inl e1)]"]) auto
  next
    case (repair_failed e v e2)
    from repair_failed(3) obtain G where G:
        "trace w' = trace (repair_state w (ForwardMessage chat mid tid) e uid v) @ G" "G \<noteq> []"
        "messages w' = messages (repair_state w (ForwardMessage chat mid tid) e uid v)"
        "\<forall>c a. (c, a) \<in> set G \<longrightarrow> \<not> is_forward c"
        "\<forall>e'. Inl e2 = Inl e' \<longrightarrow> snd (last G) = Inl e'"
        "\<forall>uid' e'. (UsersFindOneByUser uid', Inl e') \<in> set G \<longrightarrow>
            last G = (UsersFindOneByUser uid', Inl e') \<and> (Inl e2 :: exn + int) = Inl e'"
      by (rule get_or_create_topic_effect) blast
    show ?thesis
    proof (rule that [of "[(ForwardMessage chat mid tid, Inl e), (UsersDeleteOne uid, Inr v)] @ G"])
      show "trace w' = trace w @ [(ForwardMessage chat mid tid, Inl e), (UsersDeleteOne uid, Inr v)] @ G"
        using G(1) by simp
      show "[(ForwardMessage chat mid tid, Inl e), (UsersDeleteOne uid, Inr v)] @ G \<noteq> []"
        by simp
      show "messages w' = messages w"
        using G(3) by simp
      show "\<forall>e'. r = Inl e' \<longrightarrow>
          snd (last ([(ForwardMessage chat mid tid, Inl e), (UsersDeleteOne uid, Inr v)] @ G)) = Inl e'
          \<and> raised_forwards ([(ForwardMessage chat mid tid, Inl e), (UsersDeleteOne uid, Inr v)] @ G)"
        using G(2,4,5) repair_failed(1) by (auto simp: raised_forwards_def)
      show "\<forall>uid' e'. (UsersFindOneByUser uid', Inl e')
            \<in> set ([(ForwardMessage chat mid tid, Inl e), (UsersDeleteOne uid, Inr v)] @ G) \<longrightarrow>
          last ([(ForwardMessage chat mid tid, Inl e), (UsersDeleteOne uid, Inr v)] @ G)
            = (UsersFindOneByUser uid', Inl e') \<and> r = Inl e'"
        using G(2,6) repair_failed(1) by auto
    qed
  next
    case (repaired e v t w3 x)
    from repaired(3) obtain G where G:
        "trace w3 = trace (repair_state w (ForwardMessage chat mid tid) e uid v) @ G" "G \<noteq> []"
        "messages w3 = messages (repair_state w (ForwardMessage chat mid tid) e uid v)"
        "\<forall>c a. (c, a) \<in> set G \<longrightarrow> \<not> is_forward c"
        "\<forall>uid' e'. (UsersFindOneByUser uid', Inl e') \<in> set G \<longrightarrow>
            last G = (UsersFindOneByUser uid', Inl e') \<and> (Inr t :: exn + int) = Inl e'"
      by (rule get_or_create_topic_effect) blast
    show ?thesis
    proof (rule that [of "[(ForwardMessage chat mid tid, Inl e), (UsersDeleteOne uid, Inr v)] @ G
                           @ [(ForwardMessage chat mid t, x)]"])
      show "trace w' = trace w @ [(ForwardMessage chat mid tid, Inl e), (UsersDeleteOne uid, Inr v)] @ G
                           @ [(ForwardMessage chat mid t, x)]"
        using G(1) repaired(4) by simp
      show "[(ForwardMessage chat mid tid, Inl e), (UsersDeleteOne uid, Inr v)] @ G
                           @ [(ForwardMessage chat mid t, x)] \<noteq> []"
        by simp
      show "messages w' = messages w"
        using G(3) repaired(6) by simp
      show "\<forall>e'. r = Inl e' \<longrightarrow>
          snd (last ([(ForwardMessage chat mid tid, Inl e), (UsersDeleteOne uid, Inr v)] @ G
                           @ [(ForwardMessage chat mid t, x)])) = Inl e'
          \<and> raised_forwards ([(ForwardMessage chat mid tid, Inl e), (UsersDeleteOne uid, Inr v)] @ G
                           @ [(ForwardMessage chat mid t, x)])"
        using G(4) repaired(1) by (cases x) (auto simp: raised_forwards_def)
      show "\<forall>uid' e'. (UsersFindOneByUser uid', Inl e')
            \<in> set ([(ForwardMessage chat mid tid, Inl e), (UsersDeleteOne uid, Inr v)] @ G
                           @ [(ForwardMessage chat mid t, x)]) \<longrightarrow>
          last ([(ForwardMessage chat mid tid, Inl e), (UsersDeleteOne uid, Inr v)] @ G
                           @ [(ForwardMessage chat mid t, x)])
            = (UsersFindOneByUser uid', Inl e') \<and> r = Inl e'"
        using G(5) by auto
    qed
  qed
qed

lemma reply_send_is_send: "reply_send uid u = Some (c, mtype) \<Longrightarrow> is_send c"
  by (auto simp: reply_send_def reply_media_def split: option.splits if_splits)

lemma relay_effect:
  assumes "relay via mtype c env u w = (r, w')"
  obtains C where "trace w' = trace w @ C" and "C \<noteq> []"
    and "\<forall>e. r = Inl e \<longrightarrow> messages w' = messages w \<and> raised_forwards C \<and> snd (last C) = Inl e"
    and "\<forall>uid' e. (UsersFindOneByUser uid', Inl e) \<in> set C \<longrightarrow>
           last C = (UsersFindOneByUser uid', Inl e) \<and> r = Inl e"
proof -
  obtain a where w0: "trace (send_auto_reply env u w)
        = trace w @ [(ReplyText (chat_id u) AUTO_REPLY_MESSAGE, a)]"
      "messages (send_auto_reply env u w) = messages w"
    using send_auto_reply_effect [of env u w] by blast
  from assms show ?thesis
  proof (cases rule: relay_cases)
    case (resolve_failed e)
    from resolve_failed(2) obtain G where G:
        "trace w' = trace (send_auto_reply env u w) @ G" "G \<noteq> []"
        "messages w' = messages (send_auto_reply env u w)"
        "\<forall>c a. (c, a) \<in> set G \<longrightarrow> \<not> is_forward c"
        "\<forall>e'. (Inl e :: exn + int) = Inl e' \<longrightarrow> snd (last G) = Inl e'"
        "\<forall>uid' e'. (UsersFindOneByUser uid', Inl e') \<in> set G \<longrightarrow>
            last G = (UsersFindOneByUser uid', Inl e') \<and> (Inl e :: exn + int) = Inl e'"
      by (rule get_or_create_topic_effect) blast
    show ?thesis
    proof (rule that [of "(ReplyText (chat_id u) AUTO_REPLY_MESSAGE, a) # G"])
      show "trace w' = trace w @ (ReplyText (chat_id u) AUTO_REPLY_MESSAGE, a) # G"
        using G(1) w0(1) by simp
      show "(ReplyText (chat_id u) AUTO_REPLY_MESSAGE, a) # G \<noteq> []"
        by simp
      show "\<forall>e'. r = Inl e' \<longrightarrow> messages w' = messages w
          \<and> raised_forwards ((ReplyText (chat_id u) AUTO_REPLY_MESSAGE, a) # G)
          \<and> snd (last ((ReplyText (chat_id u) AUTO_REPLY_MESSAGE, a) # G)) = Inl e'"
        using G(2,3,4,5) w0(2) resolve_failed(1) by (auto simp: raised_forwards_def)
      show "\<forall>uid' e'. (UsersFindOneByUser uid', Inl e')
            \<in> set ((ReplyText (chat_id u) AUTO_REPLY_MESSAGE, a) # G) \<longrightarrow>
          last ((ReplyText (chat_id u) AUTO_REPLY_MESSAGE, a) # G) = (UsersFindOneByUser uid', Inl e')
          \<and> r = Inl e'"
        using G(2,6) resolve_failed(1) by auto
    qed
  next
    case (forward_failed t w1 e)
    from forward_failed(2) obtain G where G:
        "trace w1 = trace (send_auto_reply env u w) @ G" "G \<noteq> []"
        "messages w1 = messages (send_auto_reply env u w)"
        "\<forall>c a. (c, a) \<in> set G \<longrightarrow> \<not> is_forward c"
        "\<forall>uid' e'. (UsersFindOneByUser uid', Inl e') \<in> set G \<longrightarrow>
            last G = (UsersFindOneByUser uid', Inl e') \<and> (Inr t :: exn + int) = Inl e'"
      by (rule get_or_create_topic_effect) blast
    from forward_failed(3) obtain F where F:
        "trace w' = trace w1 @ F" "F \<noteq> []" "messages w' = messages w1"
        "\<forall>e'. (Inl e :: exn + int) = Inl e' \<longrightarrow> snd (last F) = Inl e' \<and> raised_forwards F"
        "\<forall>uid' e'. (UsersFindOneByUser uid', Inl e') \<in> set F \<longrightarrow>
            last F = (UsersFindOneByUser uid', Inl e') \<and> (Inl e :: exn + int) = Inl e'"
      by (rule forward_stage_effect) blast
    show ?thesis
    proof (rule that [of "(ReplyText (chat_id u) AUTO_REPLY_MESSAGE, a) # G @ F"])
      show "trace w' = trace w @ (ReplyText (chat_id u) AUTO_REPLY_MESSAGE, a) # G @ F"
        using G(1) F(1) w0(1) by simp
      show "(ReplyText (chat_id u) AUTO_REPLY_MESSAGE, a) # G @ F \<noteq> []"
        by simp
      show "\<forall>e'. r = Inl e' \<longrightarrow> messages w' = messages w
          \<and> raised_forwards ((ReplyText (chat_id u) AUTO_REPLY_MESSAGE, a) # G @ F)
          \<and> snd (last ((ReplyText (chat_id u) AUTO_REPLY_MESSAGE, a) # G @ F)) = Inl e'"
        using G(3,4) F(2,3,4) w0(2) forward_failed(1) by (auto simp: raised_forwards_def)
      show "\<forall>uid' e'. (UsersFindOneByUser uid', Inl e')
            \<in> set ((ReplyText (chat_id u) AUTO_REPLY_MESSAGE, a) # G @ F) \<longrightarrow>
          last ((ReplyText (chat_id u) AUTO_REPLY_MESSAGE, a) # G @ F) = (UsersFindOneByUser uid', Inl e')
          \<and> r = Inl e'"
        using G(5) F(2,5) forward_failed(1) by auto
    qed
  next
    case (relayed t w1 t' w2 x)
    from relayed(2) obtain G where G:
        "trace w1 = trace (send_auto_reply env u w) @ G"
        "\<forall>uid' e'. (UsersFindOneByUser uid', Inl e') \<in> set G \<longrightarrow>
            last G = (UsersFindOneByUser uid', Inl e') \<and> (Inr t :: exn + int) = Inl e'"
      by (rule get_or_create_topic_effect) blast
    from relayed(3) obtain F where F:
        "trace w2 = trace w1 @ F"
        "\<forall>uid' e'. (UsersFindOneByUser uid', Inl e') \<in> set F \<longrightarrow>
            last F = (UsersFindOneByUser uid', Inl e') \<and> (Inr t' :: exn + int) = Inl e'"
      by (rule forward_stage_effect) blast
    show ?thesis
    proof (rule that [of "(ReplyText (chat_id u) AUTO_REPLY_MESSAGE, a) # G @ F @
          [(MessagesInsertOne \<lparr>m_user_id = from_id u, message_type = mtype,
              direction = ''from_user'', content = c\<rparr>, x)]"])
      show "trace w' = trace w @ (ReplyText (chat_id u) AUTO_REPLY_MESSAGE, a) # G @ F @
          [(MessagesInsertOne \<lparr>m_user_id = from_id u, message_type = mtype,
              direction = ''from_user'', content = c\<rparr>, x)]"
        using G(1) F(1) w0(1) relayed(4) by simp
    qed (use G(2) F(2) relayed(1) in auto)
  qed
qed

lemma handle_inbound_lookup:
  assumes priv: "chat_type u = Private"
    and run: "handle_inbound via mtype c apology env u w = (escaped, w')"
    and raised: "(UsersFindOneByUser uid, Inl e) \<in> set (calls_since w w')"
  shows "messages w' = messages w \<and> raised_forwards (calls_since w w')
       \<and> last (logged w') = (ERROR, ''Error handling message'')
       \<and> (\<exists>pre post. calls_since w w' = pre @ [(UsersFindOneByUser uid, Inl e)] @ post
             \<and> (post = [] \<or> (\<exists>t a. apology = Some t \<and> post = [(ReplyText (chat_id u) t, a)])))"
proof -
  obtain r w1 where rel: "relay via mtype c env u w = (r, w1)"
    by fastforce
  then obtain C where C: "trace w1 = trace w @ C" "C \<noteq> []"
      "\<forall>e. r = Inl e \<longrightarrow> messages w1 = messages w \<and> raised_forwards C \<and> snd (last C) = Inl e"
      "\<forall>uid' e. (UsersFindOneByUser uid', Inl e) \<in> set C \<longrightarrow>
           last C = (UsersFindOneByUser uid', Inl e) \<and> r = Inl e"
    by (rule relay_effect) blast
  obtain pre where pre: "C = pre @ [last C]"
    using C(2) by (metis append_butlast_last_id)
  show ?thesis
  proof (cases r)
    case (Inr x)
    with run rel priv have "w' = w1"
      by (simp add: handle_inbound_def)
    with raised C(1) have "(UsersFindOneByUser uid, Inl e) \<in> set C"
      by (simp add: calls_since_def)
    with C(4) Inr show ?thesis
      by blast
  next
    case failed: (Inl e')
    with C(3) have m1: "messages w1 = messages w" and rf: "raised_forwards C"
      by blast+
    show ?thesis
    proof (cases apology)
      case None
      with run rel priv failed have w': "w' = add_log ERROR ''Error handling message'' w1"
        by (simp add: handle_inbound_def)
      have cs: "calls_since w w' = C"
        using w' C(1) by (simp add: calls_since_def add_log_def)
      with raised C(4) have l: "last C = (UsersFindOneByUser uid, Inl e)"
        by simp
      have 1: "messages w' = messages w"
        using w' m1 by (simp add: add_log_def)
      have 2: "last (logged w') = (ERROR, ''Error handling message'')"
        using w' by (simp add: add_log_def)
      have 3: "calls_since w w' = pre @ [(UsersFindOneByUser uid, Inl e)] @ []"
        using cs pre l by simp
      from 1 2 3 rf cs show ?thesis
        by blast
    next
      case (Some t)
      define a where "a = env (length (trace w1)) (ReplyText (chat_id u) t)"
      have w': "w' = (add_log ERROR ''Error handling message'' w1)
                       \<lparr>trace := trace w1 @ [(ReplyText (chat_id u) t, a)]\<rparr>"
        using run rel priv failed Some unfolding a_def
        by (simp add: handle_inbound_def perform_def add_log_def split: sum.splits)
      have cs: "calls_since w w' = C @ [(ReplyText (chat_id u) t, a)]"
        using w' C(1) by (simp add: calls_since_def add_log_def)
      with raised have "(UsersFindOneByUser uid, Inl e) \<in> set C"
        by simp
      with C(4) have l: "last C = (UsersFindOneByUser uid, Inl e)"
        by simp
      have 1: "messages w' = messages w"
        using w' m1 by (simp add: add_log_def)
      have 2: "last (logged w') = (ERROR, ''Error handling message'')"
        using w' by (simp add: add_log_def)
      have 3: "calls_since w w' = pre @ [(UsersFindOneByUser uid, Inl e)] @ [(ReplyText (chat_id u) t, a)]"
        using cs pre l by simp
      have 4: "raised_forwards (calls_since w w')"
        using cs rf by simp
      from 1 2 3 4 Some show ?thesis
        by blast
    qed
  qed
qed

lemma handle_reply_lookup:
  assumes "chat_id u = gid" and "message_thread_id u = Some tid" and "tid \<noteq> 0"
    and run: "handle_reply gid env u w = (escaped, w')"
    and raised: "(UsersFindOneByTopic tid', Inl e) \<in> set (calls_since w w')"
  shows "escaped = Some e \<and> calls_since w w' = [(UsersFindOneByTopic tid, Inl e)]
       \<and> users w' = users w \<and> messages w' = messages w"
proof (cases "env (length (trace w)) (UsersFindOneByTopic tid)")
  case (Inl e0)
  with assms show ?thesis
    by (auto simp: handle_reply_def users_find_one_topic_def perform_unfold calls_since_def)
next
  case found: (Inr v)
  define w1 where "w1 = w\<lparr>trace := trace w @ [(UsersFindOneByTopic tid, Inr v)]\<rparr>"
  show ?thesis
  proof (cases "find (\<lambda>d. topic_id d = tid) (users w)")
    case None
    with assms found show ?thesis
      by (auto simp: handle_reply_def users_find_one_topic_def perform_unfold calls_since_def
            add_log_def)
  next
    case (Some user)
    obtain r2 w2 where sr: "send_reply env (user_id user) u w1 = (r2, w2)"
      by fastforce
    have tr2: "\<exists>S. trace w2 = trace w1 @ S \<and> (\<forall>x \<in> set S. is_send (fst x))"
    proof (cases "reply_send (user_id user) u")
      case None
      with sr show ?thesis by (auto simp: send_reply_def)
    next
      case (Some cm)
      obtain c0 m0 where cm: "cm = (c0, m0)" by (cases cm)
      with Some have "is_send c0" by (auto dest: reply_send_is_send)
      with sr Some cm show ?thesis
        by (cases "env (length (trace w1)) c0") (auto simp: send_reply_def perform_unfold)
    qed
    then obtain S where S: "trace w2 = trace w1 @ S" "\<forall>x \<in> set S. is_send (fst x)"
      by blast
    have notS: "(UsersFindOneByTopic tid', Inl e) \<notin> set S"
      using S(2) by force
    have "\<exists>c a. trace w' = trace w2 @ [(c, a)] \<and> (\<forall>t. c \<noteq> UsersFindOneByTopic t)"
    proof (cases r2)
      case (Inr mtype)
      with assms(1-4) found Some sr show ?thesis
        unfolding w1_def
        by (cases "env (length (trace w2))
              (MessagesInsertOne \<lparr>m_user_id = user_id user, message_type = mtype,
                 direction = ''to_user'', content = msg_text u\<rparr>)")
           (auto simp: handle_reply_def users_find_one_topic_def perform_unfold log_message_def
              add_log_def)
    next
      case (Inl e1)
      with assms(1-4) found Some sr show ?thesis
        unfolding w1_def
        by (cases "env (length (trace w2)) (ReplyNotice tid (classify user e1))")
           (auto simp: handle_reply_def users_find_one_topic_def perform_unfold add_log_def)
    qed
    then obtain c a where last: "trace w' = trace w2 @ [(c, a)]" "\<forall>t. c \<noteq> UsersFindOneByTopic t"
      by blast
    from raised last S(1) notS show ?thesis
      unfolding w1_def by (auto simp: calls_since_def)
  qed
qed

lemma save_user_topic_goal:
  "case save_user_topic env uid tid name handle w of (ok, w') \<Rightarrow>
     \<exists>a. calls_since w w' =
            [(UsersUpdateOne \<lparr>user_id = uid, topic_id = tid, user_name = name, username = handle\<rparr>, a)]
        \<and> messages w' = messages w
        \<and> (isl a \<longrightarrow> \<not> ok \<and> users w' = users w
              \<and> last (logged w') = (ERROR, ''Error saving user topic''))"
  by (auto simp: save_user_topic_def add_log_def perform_unfold calls_since_def split: io_splits)

lemma log_message_goal:
  "\<exists>a. calls_since w (log_message env uid mtype dir ct w) =
          [(MessagesInsertOne \<lparr>m_user_id = uid, message_type = mtype, direction = dir, content = ct\<rparr>, a)]
      \<and> users (log_message env uid mtype dir ct w) = users w
      \<and> (isl a \<longrightarrow> messages (log_message env uid mtype dir ct w) = messages w
            \<and> last (logged (log_message env uid mtype dir ct w)) = (ERROR, ''Error logging message''))"
  by (auto simp: log_message_def add_log_def perform_unfold calls_since_def split: io_splits)

lemma process_update_effect:
  assumes "h env u w = (escaped, w')"
  shows "trace (process_update h env u w) = trace w'"
    and "users (process_update h env u w) = users w'"
    and "messages (process_update h env u w) = messages w'"
    and "logged (process_update h env u w)
           = logged w' @ (case escaped of None \<Rightarrow> [] | Some e \<Rightarrow> [(ERROR, ''Exception'')])"
  using assms
  by (cases escaped; simp add: process_update_def error_handler_def add_log_def)+

lemma handle_inbound_lookup_logged:
  assumes priv: "chat_type u = Private"
    and run: "handle_inbound via mtype c apology env u w = (escaped, w')"
    and raised: "(UsersFindOneByUser uid, Inl e) \<in> set (calls_since w w')"
  shows "(ERROR, ''Error handling message'') \<in> set (logged w')"
proof -
  obtain r w1 where rel: "relay via mtype c env u w = (r, w1)"
    by fastforce
  then obtain C where C: "trace w1 = trace w @ C"
      "\<forall>uid' e. (UsersFindOneByUser uid', Inl e) \<in> set C \<longrightarrow>
           last C = (UsersFindOneByUser uid', Inl e) \<and> r = Inl e"
    by (rule relay_effect) blast
  show ?thesis
  proof (cases r)
    case (Inr x)
    with run rel priv have "w' = w1"
      by (simp add: handle_inbound_def)
    with raised C(1) have "(UsersFindOneByUser uid, Inl e) \<in> set C"
      by (simp add: calls_since_def)
    with C(2) Inr show ?thesis
      by blast
  next
    case failed: (Inl e')
    show ?thesis
    proof (cases apology)
      case None
      with run rel priv failed have "w' = add_log ERROR ''Error handling message'' w1"
        by (simp add: handle_inbound_def)
      then show ?thesis
        by (simp add: add_log_def)
    next
      case (Some t)
      have "w' = (add_log ERROR ''Error handling message'' w1)
                   \<lparr>trace := trace w1 @ [(ReplyText (chat_id u) t,
                       env (length (trace w1)) (ReplyText (chat_id u) t))]\<rparr>"
        using run rel priv failed Some
        by (simp add: handle_inbound_def perform_def add_log_def split: sum.splits)
      then show ?thesis
        by (simp add: add_log_def)
    qed
  qed
qed

lemma handle_inbound_lookup_dispatch:
  assumes priv: "chat_type u = Private"
    and run: "handle_inbound via mtype c apology env u w = (escaped, w')"
    and raised: "(UsersFindOneByUser uid, Inl e) \<in> set (calls_since w w')"
  shows "(ERROR, ''Error handling message'')
          \<in> set (logged (process_update (handle_inbound via mtype c apology) env u w))
      \<and> fst (last (logged (process_update (handle_inbound via mtype c apology) env u w))) = ERROR
      \<and> trace (process_update (handle_inbound via mtype c apology) env u w) = trace w'
      \<and> users (process_update (handle_inbound via mtype c apology) env u w) = users w'
      \<and> messages (process_update (handle_inbound via mtype c apology) env u w) = messages w"
proof -
  note pu = process_update_effect [where h = "handle_inbound via mtype c apology", OF run]
  have mem: "(ERROR, ''Error handling message'') \<in> set (logged w')"
    using priv run raised by (rule handle_inbound_lookup_logged)
  have last: "last (logged w') = (ERROR, ''Error handling message'')"
    and msgs: "messages w' = messages w"
    using handle_inbound_lookup [OF priv run raised] by blast+
  from mem have ne: "logged w' \<noteq> []"
    by auto
  have "fst (last (logged (process_update (handle_inbound via mtype c apology) env u w))) = ERROR"
    using pu(4) last ne by (cases escaped) simp_all
  moreover have "(ERROR, ''Error handling message'')
          \<in> set (logged (process_update (handle_inbound via mtype c apology) env u w))"
    using pu(4) mem by simp
  ultimately show ?thesis
    using pu(1,2,3) msgs by simp
qed

lemma handle_reply_found_returns:
  assumes "env (length (trace w)) (UsersFindOneByTopic tid) = Inr v"
    and "chat_id u = gid" and "message_thread_id u = Some tid" and "tid \<noteq> 0"
  shows "fst (handle_reply gid env u w) = None"
  using assms
  by (simp add: handle_reply_def users_find_one_topic_def perform_unfold
        split: prod.splits sum.splits option.splits)

lemma handle_reply_lookup_dispatch:
  assumes gid: "chat_id u = gid" and thread: "message_thread_id u = Some tid" and nz: "tid \<noteq> 0"
    and run: "handle_reply gid env u w = (escaped, w')"
    and raised: "(UsersFindOneByTopic tid', Inl e) \<in> set (calls_since w w')"
  shows "logged (process_update (handle_reply gid) env u w) = logged w @ [(ERROR, ''Exception'')]
      \<and> trace (process_update (handle_reply gid) env u w)
           = trace w @ [(UsersFindOneByTopic tid, Inl e)]
      \<and> users (process_update (handle_reply gid) env u w) = users w
      \<and> messages (process_update (handle_reply gid) env u w) = messages w"
proof -
  note pu = process_update_effect [where h = "handle_reply gid", OF run]
  have esc: "escaped = Some e" and us: "users w' = users w" and ms: "messages w' = messages w"
    using handle_reply_lookup [OF gid thread nz run raised] by blast+
  have w': "trace w' = trace w @ [(UsersFindOneByTopic tid, Inl e)] \<and> logged w' = logged w"
  proof (cases "env (length (trace w)) (UsersFindOneByTopic tid)")
    case (Inl e0)
    with gid thread nz run esc show ?thesis
      by (auto simp: handle_reply_def users_find_one_topic_def perform_unfold)
  next
    case (Inr v)
    from handle_reply_found_returns [where env = env and w = w, OF Inr gid thread nz] run esc
    show ?thesis
      by simp
  qed
  with pu esc us ms show ?thesis
    by simp
qed

section \<open>Delivery classification\<close>

text \<open>
  C3, as the code has it. \<open>classify\<close> is a total function of the lowered error text, and the
  tests are tried in a fixed order, the first that holds deciding: \<open>"blocked"\<close> gives
  \<open>RecipientBlocked\<close>; otherwise \<open>"chat not found"\<close> or \<open>"user not found"\<close> gives
  \<open>RecipientAccountMissing\<close>; otherwise \<open>"bot can't initiate conversation"\<close> gives
  \<open>CannotInitiateConversation\<close>; otherwise \<open>"forbidden"\<close> gives \<open>Forbidden\<close>; a text with
  none of the five gives \<open>Unknown\<close> with the raw error text.
\<close>

theorem classify_priority:
  "(contains ''blocked'' (lower (str e)) \<longrightarrow>
      classify user e = RecipientBlocked (user_id user) (user_name user) (username user))
   \<and> (\<not> contains ''blocked'' (lower (str e))
        \<and> (contains ''chat not found'' (lower (str e)) \<or> contains ''user not found'' (lower (str e))) \<longrightarrow>
      classify user e = RecipientAccountMissing (user_id user))
   \<and> (\<not> contains ''blocked'' (lower (str e)) \<and> \<not> contains ''chat not found'' (lower (str e))
        \<and> \<not> contains ''user not found'' (lower (str e))
        \<and> contains ''bot can't initiate conversation'' (lower (str e)) \<longrightarrow>
      classify user e = CannotInitiateConversation (user_id user))
   \<and> (\<not> contains ''blocked'' (lower (str e)) \<and> \<not> contains ''chat not found'' (lower (str e))
        \<and> \<not> contains ''user not found'' (lower (str e))
        \<and> \<not> contains ''bot can't initiate conversation'' (lower (str e))
        \<and> contains ''forbidden'' (lower (str e)) \<longrightarrow>
      classify user e = Forbidden (user_id user))
   \<and> (\<not> contains ''blocked'' (lower (str e)) \<and> \<not> contains ''chat not found'' (lower (str e))
        \<and> \<not> contains ''user not found'' (lower (str e))
        \<and> \<not> contains ''bot can't initiate conversation'' (lower (str e))
        \<and> \<not> contains ''forbidden'' (lower (str e)) \<longrightarrow>
      classify user e = Unknown (user_id user) (str e))"
proof -
  have "contains ''bot was blocked'' m \<Longrightarrow> contains ''blocked'' m" for m
    unfolding contains_sublist
    by (rule sublist_order.order_trans[of "''blocked''" "''bot was blocked''"])
       (simp_all add: sublist_Cons_right)
  then show ?thesis
    by (auto simp: classify_def)
qed

text \<open>The five branches on error texts of the Bot API, mixed case included.\<close>

theorem classify_priority_witness:
  "classify ann (Exception ''Forbidden: bot was blocked by the user'') = RecipientBlocked 7 ''Ann'' ''ann''
   \<and> classify ann (Exception ''Bad Request: chat not found'') = RecipientAccountMissing 7
   \<and> classify ann (Exception ''Forbidden: bot can't initiate conversation with a user'')
       = CannotInitiateConversation 7
   \<and> classify ann (Exception ''Forbidden: user is deactivated'') = Forbidden 7
   \<and> classify ann (Exception ''Timed out'') = Unknown 7 ''Timed out''"
  using classify_priority [of "Exception ''Forbidden: bot was blocked by the user''" ann]
    classify_priority [of "Exception ''Bad Request: chat not found''" ann]
    classify_priority [of "Exception ''Forbidden: bot can't initiate conversation with a user''" ann]
    classify_priority [of "Exception ''Forbidden: user is deactivated''" ann]
    classify_priority [of "Exception ''Timed out''" ann]
  by (simp add: lower_samples ann_def)

text \<open>
  C3 as the claim words it fails twice. An error text that contains
  \<open>"can't initiate conversation"\<close> without the word \<open>bot\<close> before it is classified
  \<open>Unknown\<close>; and a text with none of the claim's four keywords, \<open>"user not found"\<close>, is
  classified \<open>RecipientAccountMissing\<close>, not \<open>Unknown\<close>.
\<close>

theorem classify_counterexample:
  "contains ''can't initiate conversation'' (lower ''Can't initiate conversation with a user'')
   \<and> classify ann (Exception ''Can't initiate conversation with a user'')
       = Unknown 7 ''Can't initiate conversation with a user''
   \<and> \<not> contains ''blocked'' (lower ''USER NOT FOUND'')
   \<and> \<not> contains ''chat not found'' (lower ''USER NOT FOUND'')
   \<and> \<not> contains ''can't initiate conversation'' (lower ''USER NOT FOUND'')
   \<and> \<not> contains ''forbidden'' (lower ''USER NOT FOUND'')
   \<and> classify ann (Exception ''USER NOT FOUND'') = RecipientAccountMissing 7"
  by (simp add: classify_def lower_def lower_char_def ann_def)

section \<open>The private-chat guard\<close>

text \<open>
  C10. Each of the eight user message handlers, on an update whose chat is not private,
  returns at once: the state is the one it was given (no call made, nothing stored, nothing
  logged) and no exception escapes.
\<close>

theorem private_chat_guard:
  assumes "h \<in> set inbound_handlers" and "chat_type u \<noteq> Private"
  shows "h env u w = (None, w)"
  using assms
  by (auto simp: inbound_handlers_def handle_text_message_def handle_photo_def handle_video_def
        handle_document_def handle_voice_def handle_audio_def handle_sticker_def
        handle_video_note_def handle_inbound_def)

text \<open>The voice handler on a message that arrives from a supergroup.\<close>

theorem private_chat_guard_witness:
  "handle_voice env_ok (text_from_ann\<lparr>chat_type := Supergroup\<rparr>) store_ann = (None, store_ann)"
  using private_chat_guard [of handle_voice "text_from_ann\<lparr>chat_type := Supergroup\<rparr>" env_ok store_ann]
  by (simp add: inbound_handlers_def text_from_ann_def)

section \<open>Self-healing\<close>

text \<open>
  C1, as the code has it. The statement is about the \<open>try\<close> block \<open>relay\<close> of any of
  the eight handlers, in a store where \<open>user_id\<close> is unique (the unique index of
  \<open>DatabaseManager.__init__\<close>). The user \<open>from_id u\<close> has the document \<open>d\<close>, bound to
  the topic \<open>topic_id d\<close>; during the event a forward into that topic raises \<open>e\<close>; and the
  block ends without an exception. Then \<open>e\<close> was a thread-not-found error, \<open>delete_one\<close>
  for the user was called and returned, a topic was created, for which the Bot API returned the
  id \<open>t\<close>, the upsert of the document that binds the user to \<open>t\<close> was called, and the
  message was forwarded into \<open>t\<close>. When the upsert returned, the store binds the user to
  \<open>t\<close> and to nothing else; when it raised (\<open>save_user_topic\<close> catches that and the relay
  goes on), the store has no document of the user. Nothing in the code compares \<open>t\<close> with
  the old topic.
\<close>

theorem self_healing:
  assumes uniq: "distinct (map user_id (users w))"
    and bound: "find (\<lambda>x. user_id x = from_id u) (users w) = Some d"
    and run: "relay via mtype c env u w = (Inr (), w')"
    and gone: "(ForwardMessage (chat_id u) (message_id u) (topic_id d), Inl e) \<in> set (calls_since w w')"
  shows "thread_not_found e
      \<and> (\<exists>t v v' x. (UsersDeleteOne (from_id u), Inr v) \<in> set (calls_since w w')
          \<and> (CreateForumTopic (take 20 (or_default (first_name u) ''User'')), Inr t)
                \<in> set (calls_since w w')
          \<and> (UsersUpdateOne \<lparr>user_id = from_id u, topic_id = t,
                 user_name = or_default (first_name u) ''User'',
                 username = or_default (from_username u) ''no_username''\<rparr>, x)
                \<in> set (calls_since w w')
          \<and> (ForwardMessage (chat_id u) (message_id u) t, Inr v') \<in> set (calls_since w w')
          \<and> (\<not> isl x \<longrightarrow>
                 find (\<lambda>x. user_id x = from_id u) (users w')
                   = Some \<lparr>user_id = from_id u, topic_id = t,
                        user_name = or_default (first_name u) ''User'',
                        username = or_default (from_username u) ''no_username''\<rparr>
                 \<and> (\<forall>y \<in> set (users w'). user_id y = from_id u \<longrightarrow> topic_id y = t))
          \<and> (isl x \<longrightarrow> find (\<lambda>x. user_id x = from_id u) (users w') = None))"
  using run
proof (cases rule: relay_cases)
  case (relayed t w1 t' w2 x)
  obtain a where w0: "trace (send_auto_reply env u w)
        = trace w @ [(ReplyText (chat_id u) AUTO_REPLY_MESSAGE, a)]"
      "users (send_auto_reply env u w) = users w"
    using send_auto_reply_effect [of env u w] by blast
  from relayed(2) uniq w0(2)
  obtain G where G: "trace w1 = trace (send_auto_reply env u w) @ G"
      "\<forall>c \<in> set G. \<not> is_forward (fst c)"
      "distinct (map user_id (users w1))"
    by (elim get_or_create_topic_returned) auto
  have noG: "(ForwardMessage (chat_id u) (message_id u) (topic_id d), Inl e) \<notin> set G"
    using G(2) by force
  show ?thesis
  proof (cases via)
    case False
    with relayed(3) have "forward_direct env (chat_id u) (message_id u) t w1 = (Inr t', w2)"
      by simp
    then show ?thesis
    proof (cases rule: forward_direct_cases)
      case (forwarded v)
      with gone relayed(4) G(1) w0(1) noG show ?thesis
        by (auto simp: calls_since_def)
    qed simp
  next
    case True
    with relayed(3) have "forward_to_support env (from_id u) (chat_id u) (message_id u) t
        (or_default (first_name u) ''User'') (or_default (from_username u) ''no_username'') w1
        = (Inr t', w2)"
      by simp
    then show ?thesis
    proof (cases rule: forward_to_support_cases)
      case (forwarded v)
      with gone relayed(4) G(1) w0(1) noG show ?thesis
        by (auto simp: calls_since_def)
    next
      case (repaired e1 v t2 w3 x2)
      from repaired(1) obtain v2 where x2: "x2 = Inr v2" and t2: "t2 = t'"
        by (cases x2) auto
      from repaired(3) show ?thesis
      proof (cases rule: get_or_create_topic_cases)
        case (fast v3 d3)
        with G(3) show ?thesis
          by (simp add: find_delete_one)
      next
        case (created v3 t3 x3 y3)
        from created(1) have t3: "t3 = t2"
          by (cases y3) auto
        let ?doc = "\<lparr>user_id = from_id u, topic_id = t',
                user_name = or_default (first_name u) ''User'',
                username = or_default (from_username u) ''no_username''\<rparr>"
        have tr: "calls_since w w' =
            [(ReplyText (chat_id u) AUTO_REPLY_MESSAGE, a)] @ G @
            [(ForwardMessage (chat_id u) (message_id u) t, Inl e1),
             (UsersDeleteOne (from_id u), Inr v),
             (UsersFindOneByUser (from_id u), Inr v3),
             (CreateForumTopic (take 20 (or_default (first_name u) ''User'')), Inr t'),
             (UsersUpdateOne ?doc, x3),
             (SendWelcome t' (or_default (first_name u) ''User'') (from_id u)
                (if or_default (from_username u) ''no_username'' = [] then ''None''
                 else or_default (from_username u) ''no_username''), y3),
             (ForwardMessage (chat_id u) (message_id u) t', Inr v2),
             (MessagesInsertOne \<lparr>m_user_id = from_id u, message_type = mtype,
                direction = ''from_user'', content = c\<rparr>, x)]"
          using relayed(4) repaired(4) created(3) G(1) w0(1) x2 t2 t3
          by (simp add: calls_since_def)
        from gone tr noG have first: "t = topic_id d" "e = e1"
          by auto
        have us: "users w' = users_after_save x3 ?doc (delete_one (from_id u) (users w1))"
          using relayed(5) repaired(5) created(4) t3 t2 by simp
        have saved: "\<not> isl x3 \<longrightarrow>
            find (\<lambda>x. user_id x = from_id u) (users w') = Some ?doc
            \<and> (\<forall>y \<in> set (users w'). user_id y = from_id u \<longrightarrow> topic_id y = t')"
        proof
          assume "\<not> isl x3"
          then obtain v4 where x3: "x3 = Inr v4"
            by (cases x3) auto
          have f: "find (\<lambda>x. user_id x = from_id u) (users w') = Some ?doc"
            unfolding us x3
            using find_upsert [of ?doc "delete_one (from_id u) (users w1)"]
            by simp
          have "\<forall>y \<in> set (users w'). user_id y = from_id u \<longrightarrow> topic_id y = t'"
            unfolding us x3 using delete_one_no_uid [OF G(3)]
            by (auto dest!: set_upsert)
          with f show "find (\<lambda>x. user_id x = from_id u) (users w') = Some ?doc
            \<and> (\<forall>y \<in> set (users w'). user_id y = from_id u \<longrightarrow> topic_id y = t')"
            by simp
        qed
        have lost: "isl x3 \<longrightarrow> find (\<lambda>x. user_id x = from_id u) (users w') = None"
        proof
          assume "isl x3"
          then obtain e4 where x3: "x3 = Inl e4"
            by (cases x3) auto
          show "find (\<lambda>x. user_id x = from_id u) (users w') = None"
            unfolding us x3 using find_delete_one [OF G(3)] by simp
        qed
        have c1: "(UsersDeleteOne (from_id u), Inr v) \<in> set (calls_since w w')"
          and c2: "(CreateForumTopic (take 20 (or_default (first_name u) ''User'')), Inr t')
                \<in> set (calls_since w w')"
          and c3: "(UsersUpdateOne ?doc, x3) \<in> set (calls_since w w')"
          and c4: "(ForwardMessage (chat_id u) (message_id u) t', Inr v2) \<in> set (calls_since w w')"
          unfolding tr by simp_all
        from first repaired(2) have "thread_not_found e"
          by simp
        with c1 c2 c3 c4 saved lost show ?thesis
          by blast
      qed (use repaired(1) x2 in auto)
    qed simp_all
  qed
qed simp_all

text \<open>
  Ann is bound to topic 5, which the Bot API reports missing; her text message ends in the
  new topic 9, to which she is bound afterwards.
\<close>

theorem self_healing_witness:
  "relay True ''text'' (Some ''hello'') env_thread_gone text_from_ann store_ann
     = (Inr (), snd (relay True ''text'' (Some ''hello'') env_thread_gone text_from_ann store_ann))
   \<and> (ForwardMessage 7 31 5, Inl (Exception ''Bad Request: message thread not found''))
        \<in> set (calls_since store_ann
             (snd (relay True ''text'' (Some ''hello'') env_thread_gone text_from_ann store_ann)))
   \<and> users (snd (relay True ''text'' (Some ''hello'') env_thread_gone text_from_ann store_ann))
        = [\<lparr>user_id = 7, topic_id = 9, user_name = ''Ann'', username = ''ann''\<rparr>]
   \<and> thread_not_found (Exception ''Bad Request: message thread not found'')
   \<and> (\<exists>t v'. (ForwardMessage 7 31 t, Inr v')
        \<in> set (calls_since store_ann
             (snd (relay True ''text'' (Some ''hello'') env_thread_gone text_from_ann store_ann))))"
proof -
  define W where "W = snd (relay True ''text'' (Some ''hello'') env_thread_gone text_from_ann store_ann)"
  have us: "users W = [\<lparr>user_id = 7, topic_id = 9, user_name = ''Ann'', username = ''ann''\<rparr>]"
    unfolding W_def by (simp add: run_defs)
  have run: "relay True ''text'' (Some ''hello'') env_thread_gone text_from_ann store_ann = (Inr (), W)"
    unfolding W_def by (simp add: run_defs)
  have uniq: "distinct (map user_id (users store_ann))"
    by (simp add: store_ann_def)
  have bound: "find (\<lambda>x. user_id x = from_id text_from_ann) (users store_ann) = Some ann"
    by (simp add: store_ann_def ann_def text_from_ann_def)
  have gone: "(ForwardMessage (chat_id text_from_ann) (message_id text_from_ann) (topic_id ann),
      Inl (Exception ''Bad Request: message thread not found'')) \<in> set (calls_since store_ann W)"
    unfolding W_def by (simp add: run_defs)
  from self_healing [OF uniq bound run gone]
  have "thread_not_found (Exception ''Bad Request: message thread not found'')
      \<and> (\<exists>t v'. (ForwardMessage (chat_id text_from_ann) (message_id text_from_ann) t, Inr v')
            \<in> set (calls_since store_ann W))"
    by blast
  with run gone us show ?thesis
    unfolding W_def [symmetric] by (simp add: text_from_ann_def ann_def)
qed

text \<open>
  C1 as the claim words it fails twice. In the first run the forward into topic 5 raises
  thread-not-found, the document is deleted, topic 9 is created, the upsert raises and is
  swallowed, the forward into 9 returns and the event ends normally: Ann is bound to no topic.
  In the second run the Bot API gives the new topic the id 5 again: the event ends normally
  and Ann is bound to 5, the very id that was reported missing.
\<close>

theorem self_healing_counterexample:
  "find (\<lambda>x. user_id x = 7) (users store_ann) = Some ann \<and> topic_id ann = 5
   \<and> relay True ''text'' (Some ''hello'') env_heal_no_save text_from_ann store_ann
     = (Inr (), snd (relay True ''text'' (Some ''hello'') env_heal_no_save text_from_ann store_ann))
   \<and> map fst (calls_since store_ann
        (snd (relay True ''text'' (Some ''hello'') env_heal_no_save text_from_ann store_ann)))
     = [ReplyText 7 AUTO_REPLY_MESSAGE, UsersFindOneByUser 7, ForwardMessage 7 31 5,
        UsersDeleteOne 7, UsersFindOneByUser 7, CreateForumTopic ''Ann'',
        UsersUpdateOne \<lparr>user_id = 7, topic_id = 9, user_name = ''Ann'', username = ''ann''\<rparr>,
        SendWelcome 9 ''Ann'' 7 ''ann'', ForwardMessage 7 31 9,
        MessagesInsertOne \<lparr>m_user_id = 7, message_type = ''text'', direction = ''from_user'',
          content = Some ''hello''\<rparr>]
   \<and> (ForwardMessage 7 31 5, Inl (Exception ''Bad Request: message thread not found''))
        \<in> set (calls_since store_ann
             (snd (relay True ''text'' (Some ''hello'') env_heal_no_save text_from_ann store_ann)))
   \<and> (ForwardMessage 7 31 9, Inr 9)
        \<in> set (calls_since store_ann
             (snd (relay True ''text'' (Some ''hello'') env_heal_no_save text_from_ann store_ann)))
   \<and> users (snd (relay True ''text'' (Some ''hello'') env_heal_no_save text_from_ann store_ann)) = []
   \<and> relay True ''text'' (Some ''hello'') env_same_id text_from_ann store_ann
     = (Inr (), snd (relay True ''text'' (Some ''hello'') env_same_id text_from_ann store_ann))
   \<and> (ForwardMessage 7 31 5, Inl (Exception ''Bad Request: message thread not found''))
        \<in> set (calls_since store_ann
             (snd (relay True ''text'' (Some ''hello'') env_same_id text_from_ann store_ann)))
   \<and> (CreateForumTopic ''Ann'', Inr 5)
        \<in> set (calls_since store_ann
             (snd (relay True ''text'' (Some ''hello'') env_same_id text_from_ann store_ann)))
   \<and> users (snd (relay True ''text'' (Some ''hello'') env_same_id text_from_ann store_ann)) = [ann]"
  by (simp add: run_defs env_heal_no_save_def env_same_id_def)

section \<open>The fast path and the creation of a topic\<close>

text \<open>
  C9, as the code has it. When the user has a document whose \<open>topic_id\<close> is not \<open>0\<close>,
  \<open>get_or_create_topic\<close> makes one call, the lookup in \<open>users\<close>: no call of the Bot
  API, no write, both collections unchanged. It returns that \<open>topic_id\<close>, unless the lookup
  itself raised, in which case that exception is the result.
\<close>

theorem fast_path:
  assumes "find (\<lambda>d. user_id d = uid) (users w) = Some d" and "topic_id d \<noteq> 0"
    and "get_or_create_topic env uid name handle w = (r, w')"
  shows "map fst (calls_since w w') = [UsersFindOneByUser uid]
       \<and> users w' = users w \<and> messages w' = messages w
       \<and> (r = Inr (topic_id d) \<or> (\<exists>e. r = Inl e \<and> calls_since w w' = [(UsersFindOneByUser uid, Inl e)]))"
  using assms(3)
proof (cases rule: get_or_create_topic_cases)
  case (lookup_failed e)
  then show ?thesis by (simp add: calls_since_def)
next
  case (fast v d')
  with assms(1) show ?thesis by (simp add: calls_since_def)
next
  case (create_failed v e)
  with assms(1,2) show ?thesis by simp
next
  case (created v t x y)
  with assms(1,2) show ?thesis by simp
qed

text \<open>Ann, bound to topic 5, with every call returning.\<close>

theorem fast_path_witness:
  "find (\<lambda>d. user_id d = 7) (users store_ann) = Some ann \<and> topic_id ann \<noteq> 0
   \<and> get_or_create_topic env_ok 7 ''Ann'' ''ann'' store_ann
       = (Inr 5, store_ann\<lparr>trace := [(UsersFindOneByUser 7, Inr 9)]\<rparr>)
   \<and> calls_since store_ann (store_ann\<lparr>trace := [(UsersFindOneByUser 7, Inr 9)]\<rparr>)
       = [(UsersFindOneByUser 7, Inr 9)]"
proof -
  have a: "find (\<lambda>d. user_id d = 7) (users store_ann) = Some ann"
    by (simp add: store_ann_def ann_def)
  have b: "topic_id ann \<noteq> 0"
    by (simp add: ann_def)
  have c: "get_or_create_topic env_ok 7 ''Ann'' ''ann'' store_ann
       = (Inr 5, store_ann\<lparr>trace := [(UsersFindOneByUser 7, Inr 9)]\<rparr>)"
    by (simp add: run_defs)
  from fast_path [OF a b c] a b c show ?thesis
    by (simp add: calls_since_def store_ann_def)
qed

text \<open>
  C9 as the claim words it fails for a document whose \<open>topic_id\<close> is the integer \<open>0\<close>:
  it is not null, yet \<open>if not topic_id\<close> holds, a topic is created, the document is
  overwritten and the new id 9 is returned.
\<close>

theorem fast_path_counterexample:
  "find (\<lambda>d. user_id d = 7) (users store_zero) = Some (ann\<lparr>topic_id := 0\<rparr>)
   \<and> fst (get_or_create_topic env_ok 7 ''Ann'' ''ann'' store_zero) = Inr 9
   \<and> map fst (calls_since store_zero (snd (get_or_create_topic env_ok 7 ''Ann'' ''ann'' store_zero)))
       = [UsersFindOneByUser 7, CreateForumTopic ''Ann'',
          UsersUpdateOne \<lparr>user_id = 7, topic_id = 9, user_name = ''Ann'', username = ''ann''\<rparr>,
          SendWelcome 9 ''Ann'' 7 ''ann'']
   \<and> users (snd (get_or_create_topic env_ok 7 ''Ann'' ''ann'' store_zero))
       = [\<lparr>user_id = 7, topic_id = 9, user_name = ''Ann'', username = ''ann''\<rparr>]"
  by (simp add: run_defs)

text \<open>
  C6. The user has no document and, in the course of \<open>get_or_create_topic\<close>,
  \<open>create_forum_topic\<close> raises \<open>e\<close>. Then \<open>e\<close> is the result, the calls made are the
  lookup and the failed creation (no upsert, no welcome message), and both collections are
  unchanged. The \<open>try\<close> block of a handler whose topic lookup ends so ends with the same
  exception in the same state.
\<close>

theorem create_failure_atomic:
  assumes "find (\<lambda>d. user_id d = uid) (users w) = None"
    and "get_or_create_topic env uid name handle w = (r, w')"
    and "(CreateForumTopic n, Inl e) \<in> set (calls_since w w')"
  shows "r = Inl e \<and> users w' = users w \<and> messages w' = messages w
       \<and> (\<exists>v. calls_since w w' = [(UsersFindOneByUser uid, Inr v), (CreateForumTopic n, Inl e)])
       \<and> (\<forall>via mtype c u w0. w = send_auto_reply env u w0 \<and> uid = from_id u
             \<and> name = or_default (first_name u) ''User''
             \<and> handle = or_default (from_username u) ''no_username''
            \<longrightarrow> relay via mtype c env u w0 = (Inl e, w'))"
  using assms(2)
proof (cases rule: get_or_create_topic_cases)
  case (lookup_failed e')
  with assms(3) show ?thesis by (simp add: calls_since_def)
next
  case (fast v d)
  with assms(1) show ?thesis by simp
next
  case (create_failed v e')
  with assms(3) have "e' = e" and "n = take 20 name"
    by (auto simp: calls_since_def)
  with create_failed assms(2) show ?thesis
    by (auto simp: calls_since_def relay_def)
next
  case (created v t x y)
  with assms(3) show ?thesis by (simp add: calls_since_def)
qed

text \<open>A new user, with the Bot API refusing to create topics.\<close>

theorem create_failure_atomic_witness:
  "find (\<lambda>d. user_id d = 7) (users store_empty) = None
   \<and> (CreateForumTopic ''Ann'', Inl (Exception ''Bad Request: not enough rights to create a topic''))
        \<in> set (calls_since store_empty (snd (get_or_create_topic env_no_topics 7 ''Ann'' ''ann'' store_empty)))
   \<and> fst (get_or_create_topic env_no_topics 7 ''Ann'' ''ann'' store_empty)
        = Inl (Exception ''Bad Request: not enough rights to create a topic'')
   \<and> users (snd (get_or_create_topic env_no_topics 7 ''Ann'' ''ann'' store_empty)) = []"
proof -
  define W where "W = snd (get_or_create_topic env_no_topics 7 ''Ann'' ''ann'' store_empty)"
  define R where "R = fst (get_or_create_topic env_no_topics 7 ''Ann'' ''ann'' store_empty)"
  have a: "find (\<lambda>d. user_id d = 7) (users store_empty) = None"
    by (simp add: store_empty_def)
  have b: "get_or_create_topic env_no_topics 7 ''Ann'' ''ann'' store_empty = (R, W)"
    by (simp add: R_def W_def)
  have c: "(CreateForumTopic ''Ann'', Inl (Exception ''Bad Request: not enough rights to create a topic''))
        \<in> set (calls_since store_empty W)"
    unfolding W_def by (simp add: run_defs)
  from create_failure_atomic [OF a b c] a c show ?thesis
    unfolding W_def [symmetric] R_def [symmetric] by (simp add: store_empty_def)
qed

section \<open>Replies of the support team\<close>

text \<open>
  C8. A staff message in a topic bound to \<open>user\<close> is dispatched to the send \<open>c\<close>, and
  that send raises \<open>e\<close>. Then the handler made three calls and no more: the lookup of the
  user by topic, the one send, and the reply into the same topic with the notice
  \<open>classify user e\<close>. No exception escapes the handler, whatever the answer \<open>a\<close> to the
  notice; when the notice itself raises, the last line logged says so. No event is appended and
  the sessions are untouched.
\<close>

theorem outbound_failure_absorbed:
  assumes "chat_id u = gid" and "message_thread_id u = Some tid" and "tid \<noteq> 0"
    and "find (\<lambda>d. topic_id d = tid) (users w) = Some user"
    and "reply_send (user_id user) u = Some (c, mtype)"
    and "handle_reply gid env u w = (escaped, w')"
    and "(c, Inl e) \<in> set (calls_since w w')"
  shows "escaped = None \<and> users w' = users w \<and> messages w' = messages w
       \<and> (\<exists>v a. calls_since w w' =
             [(UsersFindOneByTopic tid, Inr v), (c, Inl e), (ReplyNotice tid (classify user e), a)]
           \<and> (\<forall>e1. a = Inl e1 \<longrightarrow> last (logged w') = (ERROR, ''Failed to send error notification'')))"
proof -
  from assms(5) have send: "is_send c" by (rule reply_send_is_send)
  show ?thesis
  proof (cases "env (length (trace w)) (UsersFindOneByTopic tid)")
    case (Inl e0)
    with assms(1-3,6,7) send show ?thesis
      by (auto simp: handle_reply_def users_find_one_topic_def perform_unfold calls_since_def)
  next
    case find: (Inr v)
    show ?thesis
    proof (cases "env (Suc (length (trace w))) c")
      case (Inr v1)
      show ?thesis
      proof (cases "env (Suc (Suc (length (trace w))))
          (MessagesInsertOne \<lparr>m_user_id = user_id user, message_type = mtype,
             direction = ''to_user'', content = msg_text u\<rparr>)")
        case (Inl e2)
        with assms(1-7) send find Inr show ?thesis
          by (auto simp: handle_reply_def users_find_one_topic_def send_reply_def log_message_def
                add_log_def perform_unfold calls_since_def)
      next
        case (Inr v2)
        with assms(1-7) send find \<open>env (Suc (length (trace w))) c = Inr v1\<close> show ?thesis
          by (auto simp: handle_reply_def users_find_one_topic_def send_reply_def log_message_def
                add_log_def perform_unfold calls_since_def)
      qed
    next
      case raised: (Inl e')
      show ?thesis
      proof (cases "env (Suc (Suc (length (trace w)))) (ReplyNotice tid (classify user e'))")
        case (Inl e1)
        with assms(1-7) send find raised show ?thesis
          by (auto simp: handle_reply_def users_find_one_topic_def send_reply_def
                add_log_def perform_unfold calls_since_def)
      next
        case (Inr v1)
        with assms(1-7) send find raised show ?thesis
          by (auto simp: handle_reply_def users_find_one_topic_def send_reply_def
                add_log_def perform_unfold calls_since_def)
      qed
    qed
  qed
qed

text \<open>Staff write to Ann, who has blocked the bot.\<close>

theorem outbound_failure_absorbed_witness:
  "handle_reply (-100) env_blocked reply_in_topic store_ann
     = (None, snd (handle_reply (-100) env_blocked reply_in_topic store_ann))
   \<and> calls_since store_ann (snd (handle_reply (-100) env_blocked reply_in_topic store_ann))
     = [(UsersFindOneByTopic 5, Inr 9),
        (SendMessage 7 ''hi'', Inl (Exception ''Forbidden: bot was blocked by the user'')),
        (ReplyNotice 5 (RecipientBlocked 7 ''Ann'' ''ann''), Inr 9)]
   \<and> messages (snd (handle_reply (-100) env_blocked reply_in_topic store_ann)) = []"
proof -
  define W where "W = snd (handle_reply (-100) env_blocked reply_in_topic store_ann)"
  define R where "R = fst (handle_reply (-100) env_blocked reply_in_topic store_ann)"
  have cs: "calls_since store_ann W
     = [(UsersFindOneByTopic 5, Inr 9),
        (SendMessage 7 ''hi'', Inl (Exception ''Forbidden: bot was blocked by the user'')),
        (ReplyNotice 5 (RecipientBlocked 7 ''Ann'' ''ann''), Inr 9)]"
    unfolding W_def by (simp add: run_defs)
  have a: "chat_id reply_in_topic = -100" "message_thread_id reply_in_topic = Some 5" "(5::int) \<noteq> 0"
    by (simp_all add: reply_in_topic_def)
  have b: "find (\<lambda>d. topic_id d = 5) (users store_ann) = Some ann"
    by (simp add: store_ann_def ann_def)
  have c: "reply_send (user_id ann) reply_in_topic = Some (SendMessage 7 ''hi'', ''text'')"
    by (simp add: reply_send_def reply_in_topic_def ann_def)
  have d: "handle_reply (-100) env_blocked reply_in_topic store_ann = (R, W)"
    by (simp add: R_def W_def)
  have f: "(SendMessage 7 ''hi'', Inl (Exception ''Forbidden: bot was blocked by the user''))
      \<in> set (calls_since store_ann W)"
    by (simp add: cs)
  from outbound_failure_absorbed [OF a(1) a(2) a(3) b c d f] cs d show ?thesis
    unfolding W_def [symmetric] R_def [symmetric] by (simp add: store_ann_def)
qed

text \<open>
  C4, at the input where the code departs from it. The staff message carries none of the
  eight kinds of content (\<open>reply_send\<close> is \<open>None\<close>), so \<open>handle_reply\<close> sends nothing
  to the user: its calls are the lookup and the insert into \<open>messages\<close>. Yet an event of type
  \<open>"text"\<close> and direction \<open>"to_user"\<close> is appended and \<open>Sent reply\<close> is logged: the call
  of \<open>log_message\<close> stands after the \<open>if/elif\<close> chain, which has no \<open>else\<close>.
\<close>

theorem unsent_reply_is_logged:
  "reply_send 7 location_in_topic = None
   \<and> handle_reply (-100) env_ok location_in_topic store_ann
     = (None, snd (handle_reply (-100) env_ok location_in_topic store_ann))
   \<and> calls_since store_ann (snd (handle_reply (-100) env_ok location_in_topic store_ann))
     = [(UsersFindOneByTopic 5, Inr 9),
        (MessagesInsertOne \<lparr>m_user_id = 7, message_type = ''text'', direction = ''to_user'',
           content = None\<rparr>, Inr 9)]
   \<and> messages (snd (handle_reply (-100) env_ok location_in_topic store_ann))
     = [\<lparr>m_user_id = 7, message_type = ''text'', direction = ''to_user'', content = None\<rparr>]
   \<and> last (logged (snd (handle_reply (-100) env_ok location_in_topic store_ann)))
     = (INFO, ''Sent reply'')"
  by (simp add: run_defs)

section \<open>Bounded repair\<close>

text \<open>
  For the \<open>try\<close> block of every handler: at most two forwards, at most one
  \<open>delete_one\<close> and at most two topic creations (one when the user is new, one in the
  repair) are made in one event; the handlers that forward directly make one forward and no
  \<open>delete_one\<close>.
\<close>

lemma count_calls_simps [simp]:
  "count_calls P [] = 0"
  "count_calls P ((c, a) # cs) = (if P c then Suc (count_calls P cs) else count_calls P cs)"
  "count_calls P (cs @ ds) = count_calls P cs + count_calls P ds"
  by (simp_all add: count_calls_def)

lemma get_or_create_topic_counts:
  assumes "get_or_create_topic env uid name handle w = (r, w')"
  obtains G where "trace w' = trace w @ G"
    and "count_calls is_forward G = 0" and "count_calls is_delete G = 0"
    and "count_calls is_create G \<le> 1"
  using assms
proof (cases rule: get_or_create_topic_cases)
  case (lookup_failed e)
  then show ?thesis
    by (intro that [of "[(UsersFindOneByUser uid, Inl e)]"]) auto
next
  case (fast v d)
  then show ?thesis
    by (intro that [of "[(UsersFindOneByUser uid, Inr v)]"]) auto
next
  case (create_failed v e)
  then show ?thesis
    by (intro that [of "[(UsersFindOneByUser uid, Inr v), (CreateForumTopic (take 20 name), Inl e)]"]) auto
next
  case (created v t x y)
  then show ?thesis
    by (intro that [of "[(UsersFindOneByUser uid, Inr v), (CreateForumTopic (take 20 name), Inr t),
              (UsersUpdateOne \<lparr>user_id = uid, topic_id = t, user_name = name, username = handle\<rparr>, x),
              (SendWelcome t name uid (if handle = [] then ''None'' else handle), y)]"]) auto
qed

lemma forward_stage_counts:
  assumes "(if via then forward_to_support env uid chat mid tid name handle w
            else forward_direct env chat mid tid w) = (r, w')"
  obtains F where "trace w' = trace w @ F"
    and "count_calls is_forward F \<le> 2" and "count_calls is_delete F \<le> 1"
    and "count_calls is_create F \<le> 1"
    and "\<not> via \<longrightarrow> count_calls is_forward F = 1 \<and> count_calls is_delete F = 0
           \<and> count_calls is_create F = 0"
proof (cases via)
  case False
  with assms have "forward_direct env chat mid tid w = (r, w')" by simp
  then show ?thesis
  proof (cases rule: forward_direct_cases)
    case (forwarded v)
    then show ?thesis
      by (intro that [of "[(ForwardMessage chat mid tid, Inr v)]"]) auto
  next
    case (failed e)
    then show ?thesis
      by (intro that [of "[(ForwardMessage chat mid tid, Inl e)]"]) auto
  qed
next
  case True
  with assms have "forward_to_support env uid chat mid tid name handle w = (r, w')" by simp
  then show ?thesis
  proof (cases rule: forward_to_support_cases)
    case (forwarded v)
    with True show ?thesis
      by (intro that [of "[(ForwardMessage chat mid tid, Inr v)]"]) auto
  next
    case (other_error e)
    with True show ?thesis
      by (intro that [of "[(ForwardMessage chat mid tid, Inl e)]"]) auto
  next
    case (delete_failed e e1)
    with True show ?thesis
      by (intro that [of "[(ForwardMessage chat mid tid, Inl e), (UsersDeleteOne uid, Inl e1)]"]) auto
  next
    case (repair_failed e v e2)
    from repair_failed(3) obtain G where G:
        "trace w' = trace (repair_state w (ForwardMessage chat mid tid) e uid v) @ G"
        "count_calls is_forward G = 0" "count_calls is_delete G = 0" "count_calls is_create G \<le> 1"
      by (rule get_or_create_topic_counts) blast
    with True show ?thesis
      by (intro that [of "[(ForwardMessage chat mid tid, Inl e), (UsersDeleteOne uid, Inr v)] @ G"]) auto
  next
    case (repaired e v t w3 x)
    from repaired(3) obtain G where G:
        "trace w3 = trace (repair_state w (ForwardMessage chat mid tid) e uid v) @ G"
        "count_calls is_forward G = 0" "count_calls is_delete G = 0" "count_calls is_create G \<le> 1"
      by (rule get_or_create_topic_counts) blast
    with True repaired(4) show ?thesis
      by (intro that [of "[(ForwardMessage chat mid tid, Inl e), (UsersDeleteOne uid, Inr v)] @ G
                           @ [(ForwardMessage chat mid t, x)]"]) auto
  qed
qed

lemma bounded_repair:
  assumes "relay via mtype c env u w = (r, w')"
  shows "count_calls is_forward (calls_since w w') \<le> 2
       \<and> count_calls is_delete (calls_since w w') \<le> 1
       \<and> count_calls is_create (calls_since w w') \<le> 2
       \<and> (\<not> via \<longrightarrow> count_calls is_forward (calls_since w w') \<le> 1
             \<and> count_calls is_delete (calls_since w w') = 0)"
proof -
  obtain a where w0: "trace (send_auto_reply env u w)
        = trace w @ [(ReplyText (chat_id u) AUTO_REPLY_MESSAGE, a)]"
    using send_auto_reply_effect [of env u w] by blast
  from assms show ?thesis
  proof (cases rule: relay_cases)
    case (resolve_failed e)
    from resolve_failed(2) obtain G where G:
        "trace w' = trace (send_auto_reply env u w) @ G"
        "count_calls is_forward G = 0" "count_calls is_delete G = 0" "count_calls is_create G \<le> 1"
      by (rule get_or_create_topic_counts) blast
    with w0 show ?thesis
      by (simp add: calls_since_def)
  next
    case (forward_failed t w1 e)
    from forward_failed(2) obtain G where G:
        "trace w1 = trace (send_auto_reply env u w) @ G"
        "count_calls is_forward G = 0" "count_calls is_delete G = 0" "count_calls is_create G \<le> 1"
      by (rule get_or_create_topic_counts) blast
    from forward_failed(3) obtain F where F: "trace w' = trace w1 @ F"
        "count_calls is_forward F \<le> 2" "count_calls is_delete F \<le> 1" "count_calls is_create F \<le> 1"
        "\<not> via \<longrightarrow> count_calls is_forward F = 1 \<and> count_calls is_delete F = 0
           \<and> count_calls is_create F = 0"
      by (rule forward_stage_counts) blast
    with G w0 show ?thesis
      by (simp add: calls_since_def)
  next
    case (relayed t w1 t' w2 x)
    from relayed(2) obtain G where G:
        "trace w1 = trace (send_auto_reply env u w) @ G"
        "count_calls is_forward G = 0" "count_calls is_delete G = 0" "count_calls is_create G \<le> 1"
      by (rule get_or_create_topic_counts) blast
    from relayed(3) obtain F where F: "trace w2 = trace w1 @ F"
        "count_calls is_forward F \<le> 2" "count_calls is_delete F \<le> 1" "count_calls is_create F \<le> 1"
        "\<not> via \<longrightarrow> count_calls is_forward F = 1 \<and> count_calls is_delete F = 0
           \<and> count_calls is_create F = 0"
      by (rule forward_stage_counts) blast
    with G w0 relayed(4) show ?thesis
      by (simp add: calls_since_def)
  qed
qed

text \<open>
  C2, at the input where the code departs from it. Ann is bound to topic 5, which the Bot
  API reports missing. \<open>handle_voice\<close> forwards with \<open>context.bot.forward_message\<close>
  itself, not through \<open>forward_to_support\<close>: after the thread-not-found error it makes no
  repair (no \<open>delete_one\<close>, no new topic, no second forward), replies that the voice message
  could not be sent, and leaves Ann bound to the missing topic. \<open>handle_text_message\<close>, in
  the same state and environment, repairs and delivers.
\<close>

theorem voice_is_not_repaired:
  "handle_voice env_thread_gone voice_from_ann store_ann
     = (None, snd (handle_voice env_thread_gone voice_from_ann store_ann))
   \<and> calls_since store_ann (snd (handle_voice env_thread_gone voice_from_ann store_ann))
     = [(ReplyText 7 AUTO_REPLY_MESSAGE, Inr 9), (UsersFindOneByUser 7, Inr 9),
        (ForwardMessage 7 31 5, Inl (Exception ''Bad Request: message thread not found'')),
        (ReplyText 7 ''Error sending voice message. Please try again.'', Inr 9)]
   \<and> thread_not_found (Exception ''Bad Request: message thread not found'')
   \<and> users (snd (handle_voice env_thread_gone voice_from_ann store_ann)) = [ann]
   \<and> messages (snd (handle_voice env_thread_gone voice_from_ann store_ann)) = []
   \<and> map fst (calls_since store_ann (snd (handle_text_message env_thread_gone text_from_ann store_ann)))
     = [ReplyText 7 AUTO_REPLY_MESSAGE, UsersFindOneByUser 7, ForwardMessage 7 31 5,
        UsersDeleteOne 7, UsersFindOneByUser 7, CreateForumTopic ''Ann'',
        UsersUpdateOne \<lparr>user_id = 7, topic_id = 9, user_name = ''Ann'', username = ''ann''\<rparr>,
        SendWelcome 9 ''Ann'' 7 ''ann'', ForwardMessage 7 31 9,
        MessagesInsertOne \<lparr>m_user_id = 7, message_type = ''text'', direction = ''from_user'',
          content = Some ''hello''\<rparr>]"
  by (simp add: run_defs)

section \<open>Failures of the session store\<close>

text \<open>
  C7, as the code has it, in six parts.
  \<^item> A user message handler (\<open>handle_inbound\<close>, of which the eight handlers are
    instances) in which a lookup of the user raises: the relay ends there. No event is appended,
    every forward of the event raised (the message reached no topic), the last line logged is
    the error of the handler, and the only call after the failed lookup is the reply of the
    \<open>except\<close> branch to the correspondent, for the handlers that have one.
  \<^item> \<open>handle_reply\<close> in which the lookup by topic raises: the exception escapes the
    handler, the lookup is its only call and nothing is stored.
  \<^item> \<open>save_user_topic\<close> makes the one upsert call; when it raises, the function
    returns \<open>False\<close>, \<open>users\<close> is unchanged and the error is logged. Nothing is raised:
    the caller goes on.
  \<^item> \<open>log_message\<close> makes the one insert call; when it raises, \<open>messages\<close> is
    unchanged and the error is logged. Nothing is raised.
  \<^item> The first case under \<open>process_update\<close>: the update ends in a state, whether or not
    the reply of the \<open>except\<close> branch raised in its turn; the error of the handler is in the
    log, the last line logged is an error, and calls and collections are those the handler left.
  \<^item> The second case under \<open>process_update\<close>: the update ends in a state in which
    \<open>error_handler\<close> has logged the exception; the lookup is the only call and nothing is
    stored.
\<close>

theorem store_failure_handling:
  "(chat_type u = Private \<and> handle_inbound via mtype c apology env u w = (escaped, w')
      \<and> (UsersFindOneByUser uid, Inl e) \<in> set (calls_since w w') \<longrightarrow>
      messages w' = messages w \<and> raised_forwards (calls_since w w')
      \<and> last (logged w') = (ERROR, ''Error handling message'')
      \<and> (\<exists>pre post. calls_since w w' = pre @ [(UsersFindOneByUser uid, Inl e)] @ post
            \<and> (post = [] \<or> (\<exists>t a. apology = Some t \<and> post = [(ReplyText (chat_id u) t, a)]))))
   \<and> (chat_id ur = gid \<and> message_thread_id ur = Some tid \<and> tid \<noteq> 0
      \<and> handle_reply gid env ur wr = (escaped_r, wr')
      \<and> (UsersFindOneByTopic tid', Inl er) \<in> set (calls_since wr wr') \<longrightarrow>
      escaped_r = Some er \<and> calls_since wr wr' = [(UsersFindOneByTopic tid, Inl er)]
      \<and> users wr' = users wr \<and> messages wr' = messages wr)
   \<and> (save_user_topic env uid_s tid_s name handle ws = (ok, ws') \<longrightarrow>
      (\<exists>a. calls_since ws ws' =
              [(UsersUpdateOne \<lparr>user_id = uid_s, topic_id = tid_s, user_name = name, username = handle\<rparr>, a)]
          \<and> messages ws' = messages ws
          \<and> (isl a \<longrightarrow> \<not> ok \<and> users ws' = users ws
                \<and> last (logged ws') = (ERROR, ''Error saving user topic''))))
   \<and> (\<exists>a. calls_since wl (log_message env uid_l mt dir ct wl) =
              [(MessagesInsertOne \<lparr>m_user_id = uid_l, message_type = mt, direction = dir, content = ct\<rparr>, a)]
          \<and> users (log_message env uid_l mt dir ct wl) = users wl
          \<and> (isl a \<longrightarrow> messages (log_message env uid_l mt dir ct wl) = messages wl
                \<and> last (logged (log_message env uid_l mt dir ct wl)) = (ERROR, ''Error logging message'')))
   \<and> (chat_type u = Private \<and> handle_inbound via mtype c apology env u w = (escaped, w')
      \<and> (UsersFindOneByUser uid, Inl e) \<in> set (calls_since w w') \<longrightarrow>
      (ERROR, ''Error handling message'')
          \<in> set (logged (process_update (handle_inbound via mtype c apology) env u w))
      \<and> fst (last (logged (process_update (handle_inbound via mtype c apology) env u w))) = ERROR
      \<and> trace (process_update (handle_inbound via mtype c apology) env u w) = trace w'
      \<and> users (process_update (handle_inbound via mtype c apology) env u w) = users w'
      \<and> messages (process_update (handle_inbound via mtype c apology) env u w) = messages w)
   \<and> (chat_id ur = gid \<and> message_thread_id ur = Some tid \<and> tid \<noteq> 0
      \<and> handle_reply gid env ur wr = (escaped_r, wr')
      \<and> (UsersFindOneByTopic tid', Inl er) \<in> set (calls_since wr wr') \<longrightarrow>
      logged (process_update (handle_reply gid) env ur wr) = logged wr @ [(ERROR, ''Exception'')]
      \<and> trace (process_update (handle_reply gid) env ur wr)
           = trace wr @ [(UsersFindOneByTopic tid, Inl er)]
      \<and> users (process_update (handle_reply gid) env ur wr) = users wr
      \<and> messages (process_update (handle_reply gid) env ur wr) = messages wr)"
proof -
  have 1: "chat_type u = Private \<and> handle_inbound via mtype c apology env u w = (escaped, w')
      \<and> (UsersFindOneByUser uid, Inl e) \<in> set (calls_since w w') \<longrightarrow>
      messages w' = messages w \<and> raised_forwards (calls_since w w')
      \<and> last (logged w') = (ERROR, ''Error handling message'')
      \<and> (\<exists>pre post. calls_since w w' = pre @ [(UsersFindOneByUser uid, Inl e)] @ post
            \<and> (post = [] \<or> (\<exists>t a. apology = Some t \<and> post = [(ReplyText (chat_id u) t, a)])))"
    using handle_inbound_lookup [where u = u and via = via and mtype = mtype and c = c
      and apology = apology and env = env and w = w and escaped = escaped and w' = w' and uid = uid and e = e] by blast
  have 2: "chat_id ur = gid \<and> message_thread_id ur = Some tid \<and> tid \<noteq> 0
      \<and> handle_reply gid env ur wr = (escaped_r, wr')
      \<and> (UsersFindOneByTopic tid', Inl er) \<in> set (calls_since wr wr') \<longrightarrow>
      escaped_r = Some er \<and> calls_since wr wr' = [(UsersFindOneByTopic tid, Inl er)]
      \<and> users wr' = users wr \<and> messages wr' = messages wr"
    using handle_reply_lookup [where u = ur and gid = gid and tid = tid and env = env and w = wr
      and escaped = escaped_r and w' = wr' and tid' = tid' and e = er] by blast
  have 3: "save_user_topic env uid_s tid_s name handle ws = (ok, ws') \<longrightarrow>
      (\<exists>a. calls_since ws ws' =
              [(UsersUpdateOne \<lparr>user_id = uid_s, topic_id = tid_s, user_name = name, username = handle\<rparr>, a)]
          \<and> messages ws' = messages ws
          \<and> (isl a \<longrightarrow> \<not> ok \<and> users ws' = users ws
                \<and> last (logged ws') = (ERROR, ''Error saving user topic'')))"
    using save_user_topic_goal [where env = env and uid = uid_s and tid = tid_s and name = name
      and handle = handle and w = ws] by auto
  have 4: "\<exists>a. calls_since wl (log_message env uid_l mt dir ct wl) =
              [(MessagesInsertOne \<lparr>m_user_id = uid_l, message_type = mt, direction = dir, content = ct\<rparr>, a)]
          \<and> users (log_message env uid_l mt dir ct wl) = users wl
          \<and> (isl a \<longrightarrow> messages (log_message env uid_l mt dir ct wl) = messages wl
                \<and> last (logged (log_message env uid_l mt dir ct wl)) = (ERROR, ''Error logging message''))"
    by (rule log_message_goal)
  have 5: "chat_type u = Private \<and> handle_inbound via mtype c apology env u w = (escaped, w')
      \<and> (UsersFindOneByUser uid, Inl e) \<in> set (calls_since w w') \<longrightarrow>
      (ERROR, ''Error handling message'')
          \<in> set (logged (process_update (handle_inbound via mtype c apology) env u w))
      \<and> fst (last (logged (process_update (handle_inbound via mtype c apology) env u w))) = ERROR
      \<and> trace (process_update (handle_inbound via mtype c apology) env u w) = trace w'
      \<and> users (process_update (handle_inbound via mtype c apology) env u w) = users w'
      \<and> messages (process_update (handle_inbound via mtype c apology) env u w) = messages w"
    using handle_inbound_lookup_dispatch [where u = u and via = via and mtype = mtype and c = c
      and apology = apology and env = env and w = w and escaped = escaped and w' = w' and uid = uid and e = e] by blast
  have 6: "chat_id ur = gid \<and> message_thread_id ur = Some tid \<and> tid \<noteq> 0
      \<and> handle_reply gid env ur wr = (escaped_r, wr')
      \<and> (UsersFindOneByTopic tid', Inl er) \<in> set (calls_since wr wr') \<longrightarrow>
      logged (process_update (handle_reply gid) env ur wr) = logged wr @ [(ERROR, ''Exception'')]
      \<and> trace (process_update (handle_reply gid) env ur wr)
           = trace wr @ [(UsersFindOneByTopic tid, Inl er)]
      \<and> users (process_update (handle_reply gid) env ur wr) = users wr
      \<and> messages (process_update (handle_reply gid) env ur wr) = messages wr"
    using handle_reply_lookup_dispatch [where u = ur and gid = gid and tid = tid and env = env and w = wr
      and escaped = escaped_r and w' = wr' and tid' = tid' and e = er] by blast
  show ?thesis
    by (rule conjI [OF 1 conjI [OF 2 conjI [OF 3 conjI [OF 4 conjI [OF 5 6]]]]])
qed

text \<open>
  The store is down for a text message of Ann and for a staff reply in her topic; the upsert
  alone fails for a new user.
\<close>

text \<open>
  The store is down for a text message of Ann and for a staff reply in her topic; the upsert
  alone fails for a new user.
\<close>

theorem store_failure_handling_witness:
  "(UsersFindOneByUser 7, Inl (Exception ''ServerSelectionTimeoutError''))
      \<in> set (calls_since store_ann (snd (handle_text_message env_store_down text_from_ann store_ann)))
   \<and> messages (snd (handle_text_message env_store_down text_from_ann store_ann)) = messages store_ann
   \<and> raised_forwards
        (calls_since store_ann (snd (handle_text_message env_store_down text_from_ann store_ann)))
   \<and> (UsersFindOneByTopic 5, Inl (Exception ''ServerSelectionTimeoutError''))
      \<in> set (calls_since store_ann (snd (handle_reply (-100) env_store_down reply_in_topic store_ann)))
   \<and> fst (handle_reply (-100) env_store_down reply_in_topic store_ann)
      = Some (Exception ''ServerSelectionTimeoutError'')
   \<and> calls_since store_ann (snd (handle_reply (-100) env_store_down reply_in_topic store_ann))
      = [(UsersFindOneByTopic 5, Inl (Exception ''ServerSelectionTimeoutError''))]
   \<and> (\<exists>a. calls_since store_empty (snd (save_user_topic env_upsert_fails 7 9 ''Ann'' ''ann'' store_empty))
             = [(UsersUpdateOne \<lparr>user_id = 7, topic_id = 9, user_name = ''Ann'', username = ''ann''\<rparr>, a)])
   \<and> fst (last (logged (process_update handle_text_message env_store_down text_from_ann store_ann)))
      = ERROR
   \<and> messages (process_update handle_text_message env_store_down text_from_ann store_ann)
      = messages store_ann
   \<and> logged (process_update (handle_reply (-100)) env_store_down reply_in_topic store_ann)
      = logged store_ann @ [(ERROR, ''Exception'')]
   \<and> trace (process_update (handle_reply (-100)) env_store_down reply_in_topic store_ann)
      = trace store_ann @ [(UsersFindOneByTopic 5, Inl (Exception ''ServerSelectionTimeoutError''))]"
proof -
  define W1 where "W1 = snd (handle_text_message env_store_down text_from_ann store_ann)"
  define R1 where "R1 = fst (handle_text_message env_store_down text_from_ann store_ann)"
  define W2 where "W2 = snd (handle_reply (-100) env_store_down reply_in_topic store_ann)"
  define R2 where "R2 = fst (handle_reply (-100) env_store_down reply_in_topic store_ann)"
  define W3 where "W3 = snd (save_user_topic env_upsert_fails 7 9 ''Ann'' ''ann'' store_empty)"
  define R3 where "R3 = fst (save_user_topic env_upsert_fails 7 9 ''Ann'' ''ann'' store_empty)"
  have a1: "chat_type text_from_ann = Private"
    by (simp add: text_from_ann_def)
  have a2: "handle_inbound True ''text'' (msg_text text_from_ann)
      (Some ''Sorry, there was an error processing your message. Please try again.'')
      env_store_down text_from_ann store_ann = (R1, W1)"
    by (simp add: R1_def W1_def handle_text_message_def)
  have a3: "(UsersFindOneByUser 7, Inl (Exception ''ServerSelectionTimeoutError''))
      \<in> set (calls_since store_ann W1)"
    unfolding W1_def by (simp add: run_defs)
  have b1: "chat_id reply_in_topic = -100" "message_thread_id reply_in_topic = Some 5" "(5::int) \<noteq> 0"
    by (simp_all add: reply_in_topic_def)
  have b2: "handle_reply (-100) env_store_down reply_in_topic store_ann = (R2, W2)"
    by (simp add: R2_def W2_def)
  have b3: "(UsersFindOneByTopic 5, Inl (Exception ''ServerSelectionTimeoutError''))
      \<in> set (calls_since store_ann W2)"
    unfolding W2_def by (simp add: run_defs)
  have c1: "save_user_topic env_upsert_fails 7 9 ''Ann'' ''ann'' store_empty = (R3, W3)"
    by (simp add: R3_def W3_def)
  note part1 = store_failure_handling [THEN conjunct1, rule_format]
  note part2 = store_failure_handling [THEN conjunct2, THEN conjunct1, rule_format]
  note part3 = store_failure_handling [THEN conjunct2, THEN conjunct2, THEN conjunct1, rule_format]
  from part1 [OF conjI [OF a1 conjI [OF a2 a3]]]
  have p1: "messages W1 = messages store_ann \<and> raised_forwards (calls_since store_ann W1)"
    by blast
  from part2 [OF conjI [OF b1(1) conjI [OF b1(2) conjI [OF b1(3) conjI [OF b2 b3]]]]]
  have p2: "R2 = Some (Exception ''ServerSelectionTimeoutError'')
      \<and> calls_since store_ann W2 = [(UsersFindOneByTopic 5, Inl (Exception ''ServerSelectionTimeoutError''))]"
    by blast
  from part3 [OF c1]
  have p3: "\<exists>a. calls_since store_empty W3
      = [(UsersUpdateOne \<lparr>user_id = 7, topic_id = 9, user_name = ''Ann'', username = ''ann''\<rparr>, a)]"
    by blast
  note part5 = store_failure_handling
      [THEN conjunct2, THEN conjunct2, THEN conjunct2, THEN conjunct2, THEN conjunct1, rule_format]
  note part6 = store_failure_handling
      [THEN conjunct2, THEN conjunct2, THEN conjunct2, THEN conjunct2, THEN conjunct2, rule_format]
  have eq: "process_update handle_text_message env_store_down text_from_ann store_ann
      = process_update (handle_inbound True ''text'' (msg_text text_from_ann)
          (Some ''Sorry, there was an error processing your message. Please try again.''))
          env_store_down text_from_ann store_ann"
    by (simp add: process_update_def handle_text_message_def)
  from part5 [OF conjI [OF a1 conjI [OF a2 a3]]]
  have p5: "fst (last (logged (process_update handle_text_message env_store_down text_from_ann store_ann)))
      = ERROR
      \<and> messages (process_update handle_text_message env_store_down text_from_ann store_ann)
      = messages store_ann"
    unfolding eq by blast
  from part6 [OF conjI [OF b1(1) conjI [OF b1(2) conjI [OF b1(3) conjI [OF b2 b3]]]]]
  have p6: "logged (process_update (handle_reply (-100)) env_store_down reply_in_topic store_ann)
      = logged store_ann @ [(ERROR, ''Exception'')]
      \<and> trace (process_update (handle_reply (-100)) env_store_down reply_in_topic store_ann)
      = trace store_ann @ [(UsersFindOneByTopic 5, Inl (Exception ''ServerSelectionTimeoutError''))]"
    by blast
  from a3 p1 b3 p2 p3 p5 p6 show ?thesis
    unfolding W1_def R2_def W2_def W3_def by blast
qed

text \<open>
  C7 as the claim words it fails. With the upsert raising, the text message of a new user is
  not dropped: after the failure the welcome message is sent and the message is forwarded (two
  calls of the Bot API), and the event is appended; no session is stored. With the lookup
  raising, the handler still calls the Bot API once more, to tell the correspondent of the
  error.
\<close>

theorem store_failure_counterexample:
  "calls_since store_empty (snd (handle_text_message env_upsert_fails text_from_ann store_empty))
     = [(ReplyText 7 AUTO_REPLY_MESSAGE, Inr 9), (UsersFindOneByUser 7, Inr 9),
        (CreateForumTopic ''Ann'', Inr 9),
        (UsersUpdateOne \<lparr>user_id = 7, topic_id = 9, user_name = ''Ann'', username = ''ann''\<rparr>,
           Inl (Exception ''ServerSelectionTimeoutError'')),
        (SendWelcome 9 ''Ann'' 7 ''ann'', Inr 9), (ForwardMessage 7 31 9, Inr 9),
        (MessagesInsertOne \<lparr>m_user_id = 7, message_type = ''text'', direction = ''from_user'',
           content = Some ''hello''\<rparr>, Inr 9)]
   \<and> messages (snd (handle_text_message env_upsert_fails text_from_ann store_empty))
     = [\<lparr>m_user_id = 7, message_type = ''text'', direction = ''from_user'', content = Some ''hello''\<rparr>]
   \<and> calls_since store_ann (snd (handle_text_message env_store_down text_from_ann store_ann))
     = [(ReplyText 7 AUTO_REPLY_MESSAGE, Inr 9),
        (UsersFindOneByUser 7, Inl (Exception ''ServerSelectionTimeoutError'')),
        (ReplyText 7 ''Sorry, there was an error processing your message. Please try again.'', Inr 9)]"
  by (simp add: run_defs)

end
